theory Spec2Isabelle
  imports Complex_Main
begin

section \<open>Scale Climber: pitch estimator, scale position mapper, note namer\<close>

text \<open>
  The embedding follows \<^verbatim>\<open>services/audioAnalyzer.ts\<close>, \<^verbatim>\<open>components/Tower.tsx\<close>,
  \<^verbatim>\<open>App.tsx\<close> and \<^verbatim>\<open>constants.ts\<close>. JavaScript numbers are modelled as exact reals:
  rounding of IEEE doubles and of the 32-bit typed arrays is not modelled. Where the
  source can produce a non-finite number (a division by zero, arithmetic on
  \<^verbatim>\<open>undefined\<close>), the model has an explicit value for it.
\<close>

subsection \<open>Tower.tsx: the warp of a whole-tone step\<close>

text \<open>
  \<^verbatim>\<open>semitoneDist\<close> of \<^verbatim>\<open>getWarpedFraction\<close>. \<^verbatim>\<open>Math.log2\<close> of a number that is not
  positive is \<^verbatim>\<open>NaN\<close> or \<^verbatim>\<open>-Infinity\<close>, and the distance then is \<^verbatim>\<open>NaN\<close> or
  \<^verbatim>\<open>Infinity\<close>: \<open>None\<close> here.
\<close>

definition semitoneDist :: "real \<Rightarrow> real \<Rightarrow> int option" where
  "semitoneDist startFreq endFreq =
     (if 0 < startFreq \<and> 0 < endFreq then
        (let n1 = round (12 * log 2 (startFreq / 440) + 69);
             n2 = round (12 * log 2 (endFreq / 440) + 69)
         in Some \<bar>n2 - n1\<bar>)
      else None)"

text \<open>The body of \<^verbatim>\<open>getWarpedFraction\<close> once the distance is known.\<close>

definition warp :: "real \<Rightarrow> int \<Rightarrow> real" where
  "warp fraction sd =
     (if sd = 2 then
        (if fraction < 0.375 then (fraction / 0.375) * 0.45
         else if fraction > 0.625 then 0.55 + ((fraction - 0.625) / 0.375) * 0.45
         else 0.45 + ((fraction - 0.375) / 0.25) * 0.1)
      else fraction)"

definition getWarpedFraction :: "real \<Rightarrow> real \<Rightarrow> real \<Rightarrow> real" where
  "getWarpedFraction fraction startFreq endFreq =
     (case semitoneDist startFreq endFreq of
        None \<Rightarrow> fraction
      | Some d \<Rightarrow> warp fraction d)"

subsection \<open>Tower.tsx: the position within one scale definition\<close>

record tone =
  freq :: real
  index :: real

text \<open>
  Two things can go wrong in \<^verbatim>\<open>calculateScalePosition\<close>: \<^verbatim>\<open>scale[0].freq\<close> on an empty
  array raises a \<^verbatim>\<open>TypeError\<close>, and two adjacent tones of the same frequency make the
  raw fraction \<^verbatim>\<open>0 / 0\<close>, so that the position is \<^verbatim>\<open>NaN\<close>. The model stops with a
  fault in both cases.
\<close>

datatype fault = TypeError | NaN_position

text \<open>The \<^verbatim>\<open>for\<close> loop over the adjacent pairs; \<open>Inr None\<close> when it falls through.\<close>

fun bracket_loop :: "real \<Rightarrow> tone list \<Rightarrow> fault + real option" where
  "bracket_loop f (current # next # rest) =
     (if f \<ge> freq current \<and> f \<le> freq next then
        (let range = freq next - freq current;
             diff = f - freq current
         in if range = 0 then Inl NaN_position
            else Inr (Some (index current
                   + getWarpedFraction (diff / range) (freq current) (freq next))))
      else bracket_loop f (next # rest))"
| "bracket_loop f [t] = Inr None"
| "bracket_loop f [] = Inr None"

definition calculateScalePosition :: "real \<Rightarrow> tone list \<Rightarrow> fault + real option" where
  "calculateScalePosition f scale =
     (if scale = [] then Inl TypeError
      else
        (let minFreq = freq (hd scale);
             maxFreq = freq (last scale);
             buffer = 15
         in if f < minFreq - buffer \<or> f > maxFreq + buffer then Inr None
            else (case bracket_loop f scale of
                    Inl e \<Rightarrow> Inl e
                  | Inr (Some p) \<Rightarrow> Inr (Some p)
                  | Inr None \<Rightarrow>
                      if f \<ge> minFreq - buffer \<and> f < minFreq then Inr (Some 0)
                      else if f > maxFreq \<and> f \<le> maxFreq + buffer then Inr (Some 7)
                      else Inr None)))"

text \<open>
  \<^verbatim>\<open>getPosition\<close> reads the two scale definitions of the props and
  \<^verbatim>\<open>prevPositionRef.current\<close>; they are arguments here.
\<close>

definition getPosition ::
    "real \<Rightarrow> tone list \<Rightarrow> tone list \<Rightarrow> real option \<Rightarrow> fault + real option" where
  "getPosition f low high prevPosition =
     (if f \<le> 0 then Inr None
      else
        (case calculateScalePosition f low of
           Inl e \<Rightarrow> Inl e
         | Inr posLow \<Rightarrow>
             (case calculateScalePosition f high of
                Inl e \<Rightarrow> Inl e
              | Inr posHigh \<Rightarrow>
                  Inr (if posLow \<noteq> None \<and> posHigh \<noteq> None then
                         (case prevPosition of
                            Some prev \<Rightarrow> if prev > 3.5 then posLow else posHigh
                          | None \<Rightarrow> posLow)
                       else if posLow \<noteq> None then posLow
                       else if posHigh \<noteq> None then posHigh
                       else None))))"

text \<open>
  A scale definition as the claims take it: 8 tones, tone \<open>i\<close> carrying index \<open>i\<close>, with
  strictly increasing frequencies.
\<close>

definition well_formed :: "tone list \<Rightarrow> bool" where
  "well_formed scale \<longleftrightarrow>
     length scale = 8 \<and> map index scale = map real [0..<8]
     \<and> sorted_wrt (<) (map freq scale)"

subsection \<open>audioAnalyzer.ts: the note namer\<close>

text \<open>The remainder operator of JavaScript truncates: its sign is the dividend's.\<close>

definition js_rem :: "int \<Rightarrow> int \<Rightarrow> int" where
  "js_rem a b = sgn a * (\<bar>a\<bar> mod \<bar>b\<bar>)"

definition digit_char :: "nat \<Rightarrow> char" where
  "digit_char d = ''0123456789'' ! d"

fun decimal_digits :: "nat \<Rightarrow> string" where
  "decimal_digits n =
     (if 10 \<le> n then decimal_digits (n div 10) @ [digit_char (n mod 10)]
      else [digit_char n])"

declare decimal_digits.simps [simp del]

text \<open>The text of an integer inside a template literal.\<close>

definition number_to_string :: "int \<Rightarrow> string" where
  "number_to_string i =
     (if 0 \<le> i then decimal_digits (nat i) else CHR ''-'' # decimal_digits (nat (- i)))"

definition noteStrings :: "string list" where
  "noteStrings =
     [''C'', ''C#'', ''D'', ''Eb'', ''E'', ''F'', ''F#'', ''G'', ''G#'', ''A'', ''Bb'', ''B'']"

definition NARROW_INDICES :: "int list" where
  "NARROW_INDICES = [1, 3, 8, 10]"

definition getNoteName :: "real \<Rightarrow> string" where
  "getNoteName frequency =
     (if frequency \<le> 0 then []
      else
        (let noteNum = 12 * (ln (frequency / 440) / ln 2) + 69;
             roundedNote = round noteNum;
             noteIndex = js_rem (js_rem roundedNote 12 + 12) 12;
             diff = noteNum - of_int roundedNote;
             roundedNote2 =
               (if noteIndex \<in> set NARROW_INDICES \<and> \<bar>diff\<bar> > 0.25
                then (if diff > 0 then roundedNote + 1 else roundedNote - 1)
                else roundedNote);
             octave = \<lfloor>of_int roundedNote2 / (12::real)\<rfloor> - 1;
             finalNoteIndex = js_rem (js_rem roundedNote2 12 + 12) 12
         in noteStrings ! nat finalNoteIndex @ number_to_string octave))"

text \<open>
  The note namer in the words of the specification: the pitch class is the residue of
  the rounded note number modulo 12 and the octave its floored quotient by 12, minus one.
\<close>

definition spec_note_name :: "real \<Rightarrow> string" where
  "spec_note_name f =
     (let n = 69 + 12 * log 2 (f / 440);
          rounded = round n;
          deviation = n - of_int rounded;
          narrow = (rounded mod 12 \<in> {1, 3, 8, 10} \<and> \<bar>deviation\<bar> > 1 / 4);
          rounded2 = (if narrow then (if deviation > 0 then rounded + 1 else rounded - 1)
                      else rounded)
      in noteStrings ! nat (rounded2 mod 12) @ number_to_string (rounded2 div 12 - 1))"

subsection \<open>audioAnalyzer.ts: the pitch estimator\<close>

text \<open>
  What a numeric expression of the estimator can evaluate to. \<open>UndefinedRead\<close> marks a
  read of the typed array outside its bounds: JavaScript yields \<^verbatim>\<open>undefined\<close> there and
  the arithmetic on it \<^verbatim>\<open>NaN\<close>; the model keeps the two apart.
\<close>

datatype js_number = Num real | PosInf | NegInf | NaN | UndefinedRead

definition js_div :: "real \<Rightarrow> real \<Rightarrow> js_number" where
  "js_div a b =
     (if b \<noteq> 0 then Num (a / b)
      else if a > 0 then PosInf
      else if a < 0 then NegInf
      else NaN)"

text \<open>
  The root mean square of the frame. On an empty frame the source computes
  \<^verbatim>\<open>Math.sqrt(0 / 0)\<close>, which is \<^verbatim>\<open>NaN\<close>: \<open>None\<close> here, and \<^verbatim>\<open>NaN < 0.01\<close> is false.
\<close>

definition rms_of :: "real list \<Rightarrow> real option" where
  "rms_of buf =
     (if buf = [] then None
      else Some (sqrt (sum_list (map (\<lambda>val. val * val) buf) / real (length buf))))"

definition too_weak :: "real list \<Rightarrow> bool" where
  "too_weak buf = (case rms_of buf of None \<Rightarrow> False | Some rms \<Rightarrow> rms < 0.01)"

text \<open>
  The inner loop: the similarity of the frame with itself shifted by \<open>offset\<close>. Inside the
  scan \<open>offset < MAX_SAMPLES\<close> and \<open>MAX_SAMPLES = SIZE div 2\<close>, so every read of the frame
  is in range and the divisor is positive.
\<close>

definition correlation_at :: "real list \<Rightarrow> nat \<Rightarrow> nat \<Rightarrow> real" where
  "correlation_at buf MAX_SAMPLES offset =
     1 - (\<Sum>i\<leftarrow>[0..<MAX_SAMPLES]. \<bar>buf ! i - buf ! (i + offset)\<bar>) / real MAX_SAMPLES"

record scan_state =
  bestOffset :: int
  bestCorrelation :: real
  foundGoodCorrelation :: bool
  lastCorrelation :: real
  correlations :: "real list"

definition read_at :: "real list \<Rightarrow> int \<Rightarrow> real option" where
  "read_at a i = (if 0 \<le> i \<and> i < int (length a) then Some (a ! nat i) else None)"

text \<open>
  The return inside the loop: the lag is shifted by its neighbours' similarities. With a
  similarity of 0 at the best lag the shift is infinite (the quotient then is 0) or
  \<^verbatim>\<open>NaN\<close>.
\<close>

definition interpolate :: "real \<Rightarrow> scan_state \<Rightarrow> js_number" where
  "interpolate sampleRate st =
     (case (read_at (correlations st) (bestOffset st + 1),
            read_at (correlations st) (bestOffset st - 1),
            read_at (correlations st) (bestOffset st)) of
        (Some hi, Some lo, Some mid) \<Rightarrow>
          if mid = 0 then (if hi = lo then NaN else Num 0)
          else js_div sampleRate (of_int (bestOffset st) + 8 * ((hi - lo) / mid))
      | _ \<Rightarrow> UndefinedRead)"

function scan :: "real list \<Rightarrow> real \<Rightarrow> nat \<Rightarrow> nat \<Rightarrow> scan_state \<Rightarrow> js_number" where
  "scan buf sampleRate MAX_SAMPLES offset st =
     (if offset < MAX_SAMPLES then
        (let correlation = correlation_at buf MAX_SAMPLES offset;
             st1 = st\<lparr>correlations := (correlations st)[offset := correlation]\<rparr>
         in if correlation > 0.9 \<and> correlation > lastCorrelation st then
              scan buf sampleRate MAX_SAMPLES (offset + 1)
                ((if correlation > bestCorrelation st
                  then st1\<lparr>foundGoodCorrelation := True, bestCorrelation := correlation,
                            bestOffset := int offset\<rparr>
                  else st1\<lparr>foundGoodCorrelation := True\<rparr>)
                 \<lparr>lastCorrelation := correlation\<rparr>)
            else if foundGoodCorrelation st then interpolate sampleRate st1
            else scan buf sampleRate MAX_SAMPLES (offset + 1)
                   (st1\<lparr>lastCorrelation := correlation\<rparr>))
      else (if bestCorrelation st > 0.01 then js_div sampleRate (of_int (bestOffset st))
            else Num (- 1)))"
  by pat_completeness auto
termination
  by (relation "measure (\<lambda>(buf, sampleRate, MAX_SAMPLES, offset, st). MAX_SAMPLES - offset)")
     auto

declare scan.simps [simp del]

definition scan_init :: "nat \<Rightarrow> scan_state" where
  "scan_init MAX_SAMPLES =
     \<lparr>bestOffset = - 1, bestCorrelation = 0, foundGoodCorrelation = False,
      lastCorrelation = 1, correlations = replicate MAX_SAMPLES 0\<rparr>"

definition autoCorrelate :: "real list \<Rightarrow> real \<Rightarrow> js_number" where
  "autoCorrelate buf sampleRate =
     (let SIZE = length buf;
          MAX_SAMPLES = SIZE div 2
      in if too_weak buf then Num (- 1)
         else scan buf sampleRate MAX_SAMPLES 0 (scan_init MAX_SAMPLES))"

text \<open>
  The analyzer object. An open audio context is its sample rate, the analyser node its
  \<^verbatim>\<open>fftSize\<close>, the stream source whether it is connected.
\<close>

record audio_analyzer =
  audioContext :: "real option"
  analyser :: "nat option"
  mediaStreamSource :: "bool option"
  buffer :: "real list"

definition new_AudioAnalyzer :: audio_analyzer where
  "new_AudioAnalyzer =
     \<lparr>audioContext = None, analyser = None, mediaStreamSource = None, buffer = []\<rparr>"

text \<open>
  \<^verbatim>\<open>start\<close>: \<open>granted\<close> tells whether \<^verbatim>\<open>getUserMedia\<close> resolves (it rejects otherwise, and
  the promise of \<^verbatim>\<open>start\<close> with it: \<open>False\<close>); \<open>rate\<close> is the sample rate of the context
  the browser creates.
\<close>

definition start :: "bool \<Rightarrow> real \<Rightarrow> audio_analyzer \<Rightarrow> bool \<times> audio_analyzer" where
  "start granted rate a =
     (if audioContext a \<noteq> None then (True, a)
      else if \<not> granted then (False, a\<lparr>audioContext := Some rate\<rparr>)
      else (True, a\<lparr>audioContext := Some rate, analyser := Some 2048,
                     buffer := replicate 2048 0, mediaStreamSource := Some True\<rparr>))"

definition stop :: "audio_analyzer \<Rightarrow> audio_analyzer" where
  "stop a =
     a\<lparr>mediaStreamSource := (case mediaStreamSource a of None \<Rightarrow> None | Some c \<Rightarrow> Some False),
       audioContext := None, analyser := None\<rparr>"

text \<open>
  \<^verbatim>\<open>getPitch\<close>: \<open>samples\<close> is what \<^verbatim>\<open>getFloatTimeDomainData\<close> writes into the buffer.
\<close>

definition getPitch :: "audio_analyzer \<Rightarrow> real list \<Rightarrow> js_number \<times> audio_analyzer" where
  "getPitch a samples =
     (case (analyser a, audioContext a) of
        (Some n, Some sampleRate) \<Rightarrow>
          (let a1 = a\<lparr>buffer := samples\<rparr>
           in if too_weak (buffer a1) then (Num (- 1), a1)
              else (autoCorrelate (buffer a1) sampleRate, a1))
      | _ \<Rightarrow> (Num (- 1), a))"

text \<open>
  The notions of the specification's peak selection, in its words: a lag qualifies when
  its similarity is above 0.9 and above the previous lag's (1 before lag 0); the best
  similarity of the whole scan is the greatest similarity seen at any lag, counted from
  0 as the source's \<^verbatim>\<open>bestCorrelation\<close> is, and the best lag the first lag having it
  (-1 when no lag has a similarity above 0).
\<close>

definition qualifies :: "real list \<Rightarrow> nat \<Rightarrow> bool" where
  "qualifies buf lag =
     (let M = length buf div 2;
          sim = correlation_at buf M lag;
          previous = (if lag = 0 then 1 else correlation_at buf M (lag - 1))
      in sim > 0.9 \<and> sim > previous)"

definition no_qualifying_peak :: "real list \<Rightarrow> bool" where
  "no_qualifying_peak buf = list_all (\<lambda>lag. \<not> qualifies buf lag) [0..<length buf div 2]"

definition spec_best :: "real list \<Rightarrow> int \<times> real" where
  "spec_best buf =
     fold (\<lambda>lag (best_lag, best_sim).
             let sim = correlation_at buf (length buf div 2) lag
             in if sim > best_sim then (int lag, sim) else (best_lag, best_sim))
       [0..<length buf div 2] (- 1, 0)"

definition spec_best_lag :: "real list \<Rightarrow> int" where
  "spec_best_lag buf = fst (spec_best buf)"

definition spec_best_similarity :: "real list \<Rightarrow> real" where
  "spec_best_similarity buf = snd (spec_best buf)"

subsection \<open>constants.ts: the scale definitions\<close>

text \<open>
  Of \<^verbatim>\<open>ScaleData\<close> the two scale definitions are modelled; the \<^verbatim>\<open>levels\<close> (colours, solfege
  syllables, the frequencies a click plays) take no part in the mapping.
\<close>

record scale_data =
  scaleLow :: "tone list"
  scaleHigh :: "tone list"

definition KEYS :: "string list" where
  "KEYS = [''C'', ''D'', ''E'', ''F'', ''G'', ''A'', ''B'']"

definition BASE_C3_MIDI :: int where
  "BASE_C3_MIDI = 48"

definition MAJOR_SCALE_INTERVALS :: "int list" where
  "MAJOR_SCALE_INTERVALS = [0, 2, 4, 5, 7, 9, 11, 12]"

definition KEY_OFFSETS :: "string \<rightharpoonup> int" where
  "KEY_OFFSETS =
     map_of [(''C'', 0), (''C#'', 1), (''Db'', 1), (''D'', 2), (''D#'', 3), (''Eb'', 3),
             (''E'', 4), (''F'', 5), (''F#'', 6), (''Gb'', 6), (''G'', 7), (''G#'', 8),
             (''Ab'', 8), (''A'', 9), (''A#'', 10), (''Bb'', 10), (''B'', 11)]"

text \<open>
  \<^verbatim>\<open>KEY_OFFSETS[rootKey] || 0\<close> is 0 for a name the table does not have. A name that
  every JavaScript object inherits a property for (\<^verbatim>\<open>constructor\<close>, \<^verbatim>\<open>toString\<close>, ...)
  would find that property instead of a number; such names are not keys, and
  \<open>generateScaleData\<close> is meant for the names of \<open>KEYS\<close> and of the table.
\<close>

definition getFrequency :: "int \<Rightarrow> real" where
  "getFrequency midi = 440 * 2 powr ((of_int midi - 69) / 12)"

definition generateScaleData :: "string \<Rightarrow> scale_data" where
  "generateScaleData rootKey =
     (let rootOffset = (case KEY_OFFSETS rootKey of None \<Rightarrow> 0 | Some v \<Rightarrow> v);
          rootMidi = BASE_C3_MIDI + rootOffset;
          scaleMidiNotes = map (\<lambda>interval. rootMidi + interval) MAJOR_SCALE_INTERVALS
      in \<lparr>scaleLow =
            map (\<lambda>(midi, i). \<lparr>freq = getFrequency midi, index = real i\<rparr>)
              (zip scaleMidiNotes [0..<length scaleMidiNotes]),
          scaleHigh =
            map (\<lambda>(midi, i). \<lparr>freq = getFrequency (midi + 12), index = real i\<rparr>)
              (zip scaleMidiNotes [0..<length scaleMidiNotes])\<rparr>)"

subsection \<open>Tower.tsx: the component across renders\<close>

text \<open>
  What the component keeps between renders: the two refs, the state \<^verbatim>\<open>displayedNote\<close>, and
  for each of the two effects the value its dependency had at the previous render (\<open>None\<close>
  before the first render), by which React decides whether the effect runs again.
\<close>

record tower_state =
  prevPositionRef :: "real option"
  displayedNote :: string
  lastNoteUpdateRef :: int
  positionDep :: "real option option"
  frequencyDep :: "real option"

definition tower_init :: tower_state where
  "tower_init =
     \<lparr>prevPositionRef = None, displayedNote = [], lastNoteUpdateRef = 0,
      positionDep = None, frequencyDep = None\<rparr>"

text \<open>The first effect: the position, when it is not null, goes into the ref.\<close>

definition position_effect :: "real option \<Rightarrow> tower_state \<Rightarrow> tower_state" where
  "position_effect position st =
     (if positionDep st = Some position then st
      else (if position \<noteq> None then st\<lparr>prevPositionRef := position\<rparr> else st)
           \<lparr>positionDep := Some position\<rparr>)"

text \<open>The second effect, the throttled note name; \<open>now\<close> is \<^verbatim>\<open>Date.now()\<close>.\<close>

definition note_effect :: "real \<Rightarrow> int \<Rightarrow> tower_state \<Rightarrow> tower_state" where
  "note_effect detectedFrequency now st =
     (if frequencyDep st = Some detectedFrequency then st
      else (if detectedFrequency \<le> 0 then st\<lparr>displayedNote := []\<rparr>
            else if now - lastNoteUpdateRef st \<ge> 1000
              then st\<lparr>displayedNote := getNoteName detectedFrequency,
                       lastNoteUpdateRef := now\<rparr>
            else st)
           \<lparr>frequencyDep := Some detectedFrequency\<rparr>)"

text \<open>What a render shows of the indicator.\<close>

record tower_view =
  position :: "real option"
  renderPosition :: "real option"
  bottomPercent :: "real option"

definition view_of :: "real option \<Rightarrow> bool \<Rightarrow> tower_view" where
  "view_of pos listening =
     (let blockHeight = 100 / 8;
          halfBlock = blockHeight / 2;
          rp = (if pos = None \<and> listening then Some (- 0.5) else pos)
      in \<lparr>position = pos, renderPosition = rp,
          bottomPercent =
            (case rp of
               None \<Rightarrow> None
             | Some r \<Rightarrow> if r \<ge> - 1 \<and> r \<le> 8 then Some (r * blockHeight + halfBlock)
                         else None)\<rparr>)"

text \<open>
  One render of the component followed by its effects: one poll of the mapper. A fault
  of \<^verbatim>\<open>getPosition\<close> ends the render.
\<close>

definition render ::
    "real \<Rightarrow> scale_data \<Rightarrow> bool \<Rightarrow> int \<Rightarrow> tower_state \<Rightarrow> fault + tower_view \<times> tower_state" where
  "render detectedFrequency scaleData listening now st =
     (case getPosition detectedFrequency (scaleLow scaleData) (scaleHigh scaleData)
             (prevPositionRef st) of
        Inl e \<Rightarrow> Inl e
      | Inr pos \<Rightarrow>
          Inr (view_of pos listening,
               note_effect detectedFrequency now (position_effect pos st)))"

text \<open>The states of the component that renders can lead to.\<close>

inductive reachable :: "tower_state \<Rightarrow> bool" where
  initial: "reachable tower_init"
| rendered: "reachable st \<Longrightarrow> render f sd l now st = Inr (v, st') \<Longrightarrow> reachable st'"

text \<open>
  The invariant of the first effect: when the previous render computed a position that was
  not null, the ref holds it.
\<close>

definition deps_consistent :: "tower_state \<Rightarrow> bool" where
  "deps_consistent st \<longleftrightarrow>
     (\<forall>p. positionDep st = Some (Some p) \<longrightarrow> prevPositionRef st = Some p)"

subsection \<open>App.tsx: the session\<close>

text \<open>
  The state of \<^verbatim>\<open>App\<close> with the state of the one \<^verbatim>\<open>Tower\<close> it keeps mounted. The
  analyzer is created by the mount effect.
\<close>

record app_state =
  analyzerRef :: "audio_analyzer option"
  intervalRef :: "nat option"
  isListening :: bool
  pitch :: real
  error :: "string option"
  currentKey :: string
  tower :: tower_state

definition app_init :: app_state where
  "app_init =
     \<lparr>analyzerRef = Some new_AudioAnalyzer, intervalRef = None, isListening = False,
      pitch = - 1, error = None, currentKey = ''C'', tower = tower_init\<rparr>"

text \<open>\<^verbatim>\<open>startListening\<close>; \<open>granted\<close> and \<open>rate\<close> as for \<^verbatim>\<open>start\<close>.\<close>

definition startListening :: "bool \<Rightarrow> real \<Rightarrow> app_state \<Rightarrow> app_state" where
  "startListening granted rate s =
     (case analyzerRef s of
        None \<Rightarrow> s\<lparr>error := None\<rparr>
      | Some a \<Rightarrow>
          (let (ok, a1) = start granted rate a
           in if ok then s\<lparr>error := None, analyzerRef := Some a1, isListening := True\<rparr>
              else s\<lparr>analyzerRef := Some a1,
                     error := Some ''Please allow microphone access to use the tuner.''\<rparr>))"

text \<open>\<^verbatim>\<open>checkPitch\<close>, one tick of the timer, on the frame the analyser holds.\<close>

definition checkPitch :: "real list \<Rightarrow> app_state \<Rightarrow> app_state" where
  "checkPitch samples s =
     (case analyzerRef s of
        None \<Rightarrow> s
      | Some a \<Rightarrow>
          (let (detectedPitch, a1) = getPitch a samples;
               s1 = s\<lparr>analyzerRef := Some a1\<rparr>
           in case detectedPitch of
                Num p \<Rightarrow> if p > 70 \<and> p < 1000 then s1\<lparr>pitch := p\<rparr>
                         else if p = - 1 then s1\<lparr>pitch := - 1\<rparr>
                         else s1
              | _ \<Rightarrow> s1))"

text \<open>
  \<^verbatim>\<open>stopListening\<close>. An interval id that is falsy (0) is left where it is, as the
  source's test has it.
\<close>

definition stopListening :: "app_state \<Rightarrow> app_state" where
  "stopListening s =
     s\<lparr>analyzerRef := map_option stop (analyzerRef s),
       intervalRef := (case intervalRef s of
                         None \<Rightarrow> None
                       | Some n \<Rightarrow> if n \<noteq> 0 then None else Some n),
       isListening := False,
       pitch := - 1\<rparr>"

text \<open>The render of the tower that a change of the app's state brings about.\<close>

definition render_tower :: "int \<Rightarrow> app_state \<Rightarrow> fault + app_state" where
  "render_tower now s =
     (case render (pitch s) (generateScaleData (currentKey s)) (isListening s) now (tower s) of
        Inl e \<Rightarrow> Inl e
      | Inr (v, t) \<Rightarrow> Inr (s\<lparr>tower := t\<rparr>))"

subsection \<open>Facts about the warp\<close>

lemma warp_two_max_min:
  "warp x 2 = max (min (6 / 5 * x) (2 / 5 * x + 3 / 10)) (6 / 5 * x - 1 / 5)"
  by (simp add: warp_def max_def min_def field_simps)

lemma warp_two_cont: "isCont (\<lambda>x. warp x 2) a"
proof -
  have "isCont (\<lambda>x::real. max (min (6 / 5 * x) (2 / 5 * x + 3 / 10)) (6 / 5 * x - 1 / 5)) a"
    by (intro continuous_intros)
  then show ?thesis
    by (simp add: warp_two_max_min)
qed

lemma warp_two_mono: "x \<le> y \<Longrightarrow> warp x 2 \<le> warp y 2"
  unfolding warp_two_max_min
  by (intro max.mono min.mono) simp_all

lemma warp_unit_range: "0 \<le> x \<Longrightarrow> x \<le> 1 \<Longrightarrow> 0 \<le> warp x d \<and> warp x d \<le> 1"
  by (simp add: warp_def field_simps)

lemma warp_zero: "warp 0 d = 0"
  by (simp add: warp_def)

lemma warp_one: "warp 1 d = 1"
  by (simp add: warp_def)

subsection \<open>Facts about the position within one scale definition\<close>

lemma getWarpedFraction_zero: "getWarpedFraction 0 s e = 0"
  by (simp add: getWarpedFraction_def warp_zero split: option.splits)

lemma getWarpedFraction_one: "getWarpedFraction 1 s e = 1"
  by (simp add: getWarpedFraction_def warp_one split: option.splits)

lemma getWarpedFraction_unit:
  "0 \<le> x \<Longrightarrow> x \<le> 1 \<Longrightarrow> 0 \<le> getWarpedFraction x s e \<and> getWarpedFraction x s e \<le> 1"
  using warp_unit_range by (simp add: getWarpedFraction_def split: option.splits)

lemma bracket_loop_first:
  "freq c < freq n \<Longrightarrow> bracket_loop (freq c) (c # n # rest) = Inr (Some (index c))"
  by (simp add: getWarpedFraction_zero)

lemma bracket_loop_later:
  "sorted_wrt (<) (map freq scale) \<Longrightarrow> 0 < i \<Longrightarrow> i < length scale \<Longrightarrow>
   bracket_loop (freq (scale ! i)) scale = Inr (Some (index (scale ! (i - 1)) + 1))"
proof (induction "freq (scale ! i)" scale arbitrary: i rule: bracket_loop.induct)
  case (1 current "next" rest)
  show ?case
  proof (cases "i = 1")
    case True
    with "1.prems" show ?thesis
      by (simp add: getWarpedFraction_one)
  next
    case False
    with "1.prems" have i2: "1 < i" by simp
    from "1.prems" i2 have gt: "freq next < freq ((current # next # rest) ! i)"
      by (cases i) (auto simp: nth_Cons split: nat.splits)
    have eq: "(current # next # rest) ! i = (next # rest) ! (i - 1)"
      using i2 by (cases i) simp_all
    have nb: "\<not> (freq current \<le> freq ((current # next # rest) ! i)
                \<and> freq ((current # next # rest) ! i) \<le> freq next)"
      using gt by simp
    have "bracket_loop (freq ((next # rest) ! (i - 1))) (next # rest)
            = Inr (Some (index ((next # rest) ! (i - 1 - 1)) + 1))"
    proof (rule "1.hyps")
      show "\<not> (freq current \<le> freq ((current # next # rest) ! i)
                \<and> freq ((current # next # rest) ! i) \<le> freq next)" by (rule nb)
      show "freq ((current # next # rest) ! i) = freq ((next # rest) ! (i - 1))"
        using eq by simp
      show "sorted_wrt (<) (map freq (next # rest))" using "1.prems" by simp
      show "0 < i - 1" using i2 by simp
      show "i - 1 < length (next # rest)" using "1.prems" i2 by simp
    qed
    moreover have "(current # next # rest) ! (i - 1) = (next # rest) ! (i - 1 - 1)"
      using i2 by (cases i) (auto simp: nth_Cons split: nat.splits)
    ultimately show ?thesis
      using gt eq by simp
  qed
qed simp_all

lemma bracket_loop_range:
  "sorted_wrt (<) (map freq scale) \<Longrightarrow>
   (\<forall>t \<in> set (butlast scale). lo \<le> index t \<and> index t + 1 \<le> hi) \<Longrightarrow>
   \<exists>r. bracket_loop f scale = Inr r \<and> (\<forall>p. r = Some p \<longrightarrow> lo \<le> p \<and> p \<le> hi)"
proof (induction f scale rule: bracket_loop.induct)
  case (1 f current "next" rest)
  show ?case
  proof (cases "f \<ge> freq current \<and> f \<le> freq next")
    case True
    from "1.prems" have lt: "freq current < freq next" by simp
    let ?x = "(f - freq current) / (freq next - freq current)"
    have "0 \<le> ?x \<and> ?x \<le> 1" using True lt by (simp add: field_simps)
    then have "0 \<le> getWarpedFraction ?x (freq current) (freq next)
             \<and> getWarpedFraction ?x (freq current) (freq next) \<le> 1"
      using getWarpedFraction_unit by blast
    moreover from "1.prems" have "lo \<le> index current \<and> index current + 1 \<le> hi" by simp
    ultimately show ?thesis using True lt by (simp add: Let_def)
  next
    case False
    then show ?thesis using "1.IH" "1.prems" by auto
  qed
qed simp_all


lemma well_formed_index: "well_formed scale \<Longrightarrow> i < 8 \<Longrightarrow> index (scale ! i) = real i"
proof -
  assume wf: "well_formed scale" and i: "i < 8"
  from wf have len: "length scale = 8" and m: "map index scale = map real [0..<8]"
    by (simp_all add: well_formed_def)
  have "index (scale ! i) = map index scale ! i"
    using len i by simp
  also have "\<dots> = map real [0..<8] ! i"
    by (simp only: m)
  also have "\<dots> = real i"
    using i by (simp del: upt_Suc)
  finally show ?thesis .
qed

lemma well_formed_freq_less:
  "well_formed scale \<Longrightarrow> i < j \<Longrightarrow> j < 8 \<Longrightarrow> freq (scale ! i) < freq (scale ! j)"
  using sorted_wrt_nth_less [of "(<)" "map freq scale" i j]
  by (simp add: well_formed_def)

lemma well_formed_freq_le:
  "well_formed scale \<Longrightarrow> i \<le> j \<Longrightarrow> j < 8 \<Longrightarrow> freq (scale ! i) \<le> freq (scale ! j)"
  using well_formed_freq_less [of scale i j] by (cases "i = j") auto

lemma well_formed_ends:
  "well_formed scale \<Longrightarrow> scale \<noteq> [] \<and> hd scale = scale ! 0 \<and> last scale = scale ! 7"
proof -
  assume "well_formed scale"
  then have len: "length scale = 8" by (simp add: well_formed_def)
  then have ne: "scale \<noteq> []" by auto
  from ne have "hd scale = scale ! 0" by (rule hd_conv_nth)
  moreover from ne len have "last scale = scale ! 7" by (simp add: last_conv_nth)
  ultimately show ?thesis using ne by simp
qed

lemma exact_tone_position:
  assumes wf: "well_formed scale" and i: "i < 8"
  shows "calculateScalePosition (freq (scale ! i)) scale = Inr (Some (real i))"
proof -
  let ?f = "freq (scale ! i)"
  from wf have ends: "scale \<noteq> []" "hd scale = scale ! 0" "last scale = scale ! 7"
    using well_formed_ends by auto
  have lo: "freq (scale ! 0) \<le> ?f" using wf i by (intro well_formed_freq_le) auto
  have hi: "?f \<le> freq (scale ! 7)" using wf i by (intro well_formed_freq_le) auto
  have loop: "bracket_loop ?f scale = Inr (Some (real i))"
  proof (cases "i = 0")
    case True
    from wf obtain c n rest where sc: "scale = c # n # rest"
      by (cases scale; cases "tl scale") (auto simp: well_formed_def)
    with wf have "freq c < freq n" by (simp add: well_formed_def)
    then have "bracket_loop (freq c) (c # n # rest) = Inr (Some (index c))"
      by (rule bracket_loop_first)
    moreover have "index c = 0" using well_formed_index [OF wf, of 0] sc by simp
    ultimately show ?thesis using True sc by simp
  next
    case False
    with wf i have "bracket_loop ?f scale = Inr (Some (index (scale ! (i - 1)) + 1))"
      by (intro bracket_loop_later) (auto simp: well_formed_def)
    moreover have "index (scale ! (i - 1)) = real (i - 1)"
      using wf i by (intro well_formed_index) auto
    ultimately show ?thesis using False by (simp add: of_nat_diff)
  qed
  show ?thesis
    using ends lo hi loop by (simp add: calculateScalePosition_def)
qed

lemma position_range:
  assumes wf: "well_formed scale"
  shows "\<exists>r. calculateScalePosition f scale = Inr r \<and> (\<forall>p. r = Some p \<longrightarrow> 0 \<le> p \<and> p \<le> 7)"
proof -
  from wf have ne: "scale \<noteq> []" using well_formed_ends by auto
  have idx: "\<forall>t \<in> set (butlast scale). 0 \<le> index t \<and> index t + 1 \<le> 7"
  proof
    fix t assume "t \<in> set (butlast scale)"
    then obtain k where k: "k < length (butlast scale)" "t = butlast scale ! k"
      by (auto simp: in_set_conv_nth)
    with wf have k7: "k < 7" by (simp add: well_formed_def)
    with k have "t = scale ! k" by (simp add: nth_butlast)
    with k7 wf have "index t = real k" using well_formed_index [of scale k] by simp
    with k7 show "0 \<le> index t \<and> index t + 1 \<le> 7" by simp
  qed
  from wf have "sorted_wrt (<) (map freq scale)" by (simp add: well_formed_def)
  from bracket_loop_range [OF this idx, of f]
  obtain r where r: "bracket_loop f scale = Inr r" "\<forall>p. r = Some p \<longrightarrow> 0 \<le> p \<and> p \<le> 7"
    by blast
  then show ?thesis
    using ne by (cases r) (auto simp: calculateScalePosition_def Let_def)
qed

subsection \<open>The claims about the warp\<close>

lemma getFrequency_positive: "0 < getFrequency m"
  by (simp add: getFrequency_def)

lemma note_number_getFrequency: "12 * log 2 (getFrequency m / 440) + 69 = of_int m"
proof -
  have "getFrequency m / 440 = 2 powr ((of_int m - 69) / 12)"
    by (simp add: getFrequency_def)
  then have "log 2 (getFrequency m / 440) = (of_int m - 69) / 12"
    by (simp only: log_powr_cancel)
  then show ?thesis by simp
qed

lemma semitoneDist_getFrequency:
  "semitoneDist (getFrequency m) (getFrequency n) = Some \<bar>n - m\<bar>"
  by (simp add: semitoneDist_def getFrequency_positive note_number_getFrequency Let_def)

lemma getWarpedFraction_whole_tone:
  "semitoneDist s e = Some 2 \<Longrightarrow> getWarpedFraction x s e = warp x 2"
  by (simp add: getWarpedFraction_def)

lemma getWarpedFraction_other:
  "semitoneDist s e \<noteq> Some 2 \<Longrightarrow> getWarpedFraction x s e = x"
  by (cases "semitoneDist s e") (simp_all add: getWarpedFraction_def warp_def)

text \<open>
  C4. \<^verbatim>\<open>getWarpedFraction\<close> between two frequencies whose rounded note numbers are 2
  apart (as those of two notes a whole tone apart are) maps 0 to 0, 0.375 to 0.45, 0.625
  to 0.55 and 1 to 1, is continuous at the two segment boundaries 0.375 and 0.625 and
  monotonically non-decreasing on [0,1]; between two frequencies at any other distance,
  or with no distance at all, it is the identity. The same holds of the warp taken by
  itself, as a function of the fraction and the semitone distance.
\<close>

theorem C4_warp:
  "(semitoneDist s e = Some 2 \<longrightarrow>
      getWarpedFraction 0 s e = 0 \<and> getWarpedFraction 0.375 s e = 0.45
      \<and> getWarpedFraction 0.625 s e = 0.55 \<and> getWarpedFraction 1 s e = 1
      \<and> isCont (\<lambda>x. getWarpedFraction x s e) 0.375
      \<and> isCont (\<lambda>x. getWarpedFraction x s e) 0.625
      \<and> (\<forall>x y. 0 \<le> x \<and> x \<le> y \<and> y \<le> 1 \<longrightarrow>
             getWarpedFraction x s e \<le> getWarpedFraction y s e))
   \<and> (semitoneDist s e \<noteq> Some 2 \<longrightarrow> (\<forall>x. getWarpedFraction x s e = x))
   \<and> (\<forall>m n. semitoneDist (getFrequency m) (getFrequency n) = Some \<bar>n - m\<bar>)
   \<and> (\<forall>x. getWarpedFraction x s e
          = (case semitoneDist s e of None \<Rightarrow> x | Some d \<Rightarrow> warp x d))
   \<and> warp 0 2 = 0 \<and> warp 0.375 2 = 0.45 \<and> warp 0.625 2 = 0.55 \<and> warp 1 2 = 1
   \<and> isCont (\<lambda>x. warp x 2) 0.375 \<and> isCont (\<lambda>x. warp x 2) 0.625
   \<and> (\<forall>x y. 0 \<le> x \<and> x \<le> y \<and> y \<le> 1 \<longrightarrow> warp x 2 \<le> warp y 2)
   \<and> (\<forall>d x. d \<noteq> 2 \<longrightarrow> warp x d = x)"
proof -
  have vals: "warp 0 2 = 0 \<and> warp 0.375 2 = 0.45 \<and> warp 0.625 2 = 0.55 \<and> warp 1 2 = 1"
    by (simp add: warp_def)
  have ident: "\<forall>d x. d \<noteq> 2 \<longrightarrow> warp x d = x"
    by (simp add: warp_def)
  have mono: "\<forall>x y. 0 \<le> x \<and> x \<le> y \<and> y \<le> 1 \<longrightarrow> warp x 2 \<le> warp y 2"
    using warp_two_mono by blast
  have cont: "isCont (\<lambda>x. warp x 2) 0.375 \<and> isCont (\<lambda>x. warp x 2) 0.625"
    using warp_two_cont by blast
  have whole: "getWarpedFraction 0 s e = 0 \<and> getWarpedFraction 0.375 s e = 0.45
      \<and> getWarpedFraction 0.625 s e = 0.55 \<and> getWarpedFraction 1 s e = 1
      \<and> isCont (\<lambda>x. getWarpedFraction x s e) 0.375
      \<and> isCont (\<lambda>x. getWarpedFraction x s e) 0.625
      \<and> (\<forall>x y. 0 \<le> x \<and> x \<le> y \<and> y \<le> 1 \<longrightarrow>
             getWarpedFraction x s e \<le> getWarpedFraction y s e)"
    if two: "semitoneDist s e = Some 2"
  proof -
    have eq: "(\<lambda>x. getWarpedFraction x s e) = (\<lambda>x. warp x 2)"
      using two by (simp add: getWarpedFraction_whole_tone)
    have "getWarpedFraction x s e = warp x 2" for x
      using two by (rule getWarpedFraction_whole_tone)
    with vals mono cont show ?thesis
      by (simp only: eq)
  qed
  have other: "semitoneDist s e \<noteq> Some 2 \<longrightarrow> (\<forall>x. getWarpedFraction x s e = x)"
    using getWarpedFraction_other by blast
  have dist: "\<forall>m n. semitoneDist (getFrequency m) (getFrequency n) = Some \<bar>n - m\<bar>"
    using semitoneDist_getFrequency by blast
  have unfold: "\<forall>x. getWarpedFraction x s e
          = (case semitoneDist s e of None \<Rightarrow> x | Some d \<Rightarrow> warp x d)"
    by (simp add: getWarpedFraction_def)
  from whole other dist unfold vals cont mono ident show ?thesis by blast
qed

theorem C4_warp_witness:
  "semitoneDist (getFrequency 48) (getFrequency 50) = Some 2
   \<and> getWarpedFraction 0 (getFrequency 48) (getFrequency 50) = 0
   \<and> getWarpedFraction 0.375 (getFrequency 48) (getFrequency 50) = 0.45
   \<and> getWarpedFraction 0.625 (getFrequency 48) (getFrequency 50) = 0.55
   \<and> getWarpedFraction 1 (getFrequency 48) (getFrequency 50) = 1
   \<and> (0::real) \<le> 0.3 \<and> (0.3::real) \<le> 0.5 \<and> (0.5::real) \<le> 1
   \<and> getWarpedFraction 0.3 (getFrequency 48) (getFrequency 50)
        \<le> getWarpedFraction 0.5 (getFrequency 48) (getFrequency 50)
   \<and> semitoneDist (getFrequency 52) (getFrequency 53) = Some 1
   \<and> semitoneDist (getFrequency 52) (getFrequency 53) \<noteq> Some 2
   \<and> getWarpedFraction 0.7 (getFrequency 52) (getFrequency 53) = 0.7
   \<and> (3::int) \<noteq> 2 \<and> warp 0.7 3 = 0.7"
proof -
  from C4_warp [of "getFrequency 48" "getFrequency 50"]
  have d2: "semitoneDist (getFrequency 48) (getFrequency 50) = Some \<bar>50 - 48\<bar>" by blast
  then have two: "semitoneDist (getFrequency 48) (getFrequency 50) = Some 2" by simp
  from C4_warp [of "getFrequency 48" "getFrequency 50"] two
  have a: "getWarpedFraction 0 (getFrequency 48) (getFrequency 50) = 0
   \<and> getWarpedFraction 0.375 (getFrequency 48) (getFrequency 50) = 0.45
   \<and> getWarpedFraction 0.625 (getFrequency 48) (getFrequency 50) = 0.55
   \<and> getWarpedFraction 1 (getFrequency 48) (getFrequency 50) = 1"
    by blast
  have le: "(0::real) \<le> 0.3 \<and> (0.3::real) \<le> 0.5 \<and> (0.5::real) \<le> 1" by simp
  from C4_warp [of "getFrequency 48" "getFrequency 50"] two le
  have m: "getWarpedFraction 0.3 (getFrequency 48) (getFrequency 50)
        \<le> getWarpedFraction 0.5 (getFrequency 48) (getFrequency 50)"
    by blast
  from C4_warp [of "getFrequency 52" "getFrequency 53"]
  have "semitoneDist (getFrequency 52) (getFrequency 53) = Some \<bar>53 - 52\<bar>" by blast
  then have one: "semitoneDist (getFrequency 52) (getFrequency 53) = Some 1" by simp
  then have ne: "semitoneDist (getFrequency 52) (getFrequency 53) \<noteq> Some 2" by simp
  from C4_warp [of "getFrequency 52" "getFrequency 53"] ne
  have i: "getWarpedFraction 0.7 (getFrequency 52) (getFrequency 53) = 0.7" by blast
  have n3: "(3::int) \<noteq> 2" by simp
  from C4_warp [of "getFrequency 48" "getFrequency 50"] n3
  have w: "warp 0.7 3 = 0.7" by blast
  from two a le m one ne i n3 w show ?thesis by blast
qed

subsection \<open>The scale position mapper\<close>

lemma getFrequency_less: "a < b \<Longrightarrow> getFrequency a < getFrequency b"
  by (simp add: getFrequency_def)

lemma getFrequency_69: "getFrequency 69 = 440"
  by (simp add: getFrequency_def)

lemma getFrequency_57: "getFrequency 57 = 220"
  by (simp add: getFrequency_def powr_minus)

lemma generated_low:
  "scaleLow (generateScaleData k) =
     (let r = BASE_C3_MIDI + (case KEY_OFFSETS k of None \<Rightarrow> 0 | Some v \<Rightarrow> v) in
      [\<lparr>freq = getFrequency r, index = 0\<rparr>, \<lparr>freq = getFrequency (r + 2), index = 1\<rparr>,
       \<lparr>freq = getFrequency (r + 4), index = 2\<rparr>, \<lparr>freq = getFrequency (r + 5), index = 3\<rparr>,
       \<lparr>freq = getFrequency (r + 7), index = 4\<rparr>, \<lparr>freq = getFrequency (r + 9), index = 5\<rparr>,
       \<lparr>freq = getFrequency (r + 11), index = 6\<rparr>, \<lparr>freq = getFrequency (r + 12), index = 7\<rparr>])"
  by (simp add: generateScaleData_def MAJOR_SCALE_INTERVALS_def Let_def upt_rec)

lemma generated_high:
  "scaleHigh (generateScaleData k) =
     (let r = BASE_C3_MIDI + (case KEY_OFFSETS k of None \<Rightarrow> 0 | Some v \<Rightarrow> v) in
      [\<lparr>freq = getFrequency (r + 12), index = 0\<rparr>, \<lparr>freq = getFrequency (r + 14), index = 1\<rparr>,
       \<lparr>freq = getFrequency (r + 16), index = 2\<rparr>, \<lparr>freq = getFrequency (r + 17), index = 3\<rparr>,
       \<lparr>freq = getFrequency (r + 19), index = 4\<rparr>, \<lparr>freq = getFrequency (r + 21), index = 5\<rparr>,
       \<lparr>freq = getFrequency (r + 23), index = 6\<rparr>, \<lparr>freq = getFrequency (r + 24), index = 7\<rparr>])"
  by (simp add: generateScaleData_def MAJOR_SCALE_INTERVALS_def Let_def upt_rec add.commute)

lemma generated_well_formed:
  "well_formed (scaleLow (generateScaleData k)) \<and> well_formed (scaleHigh (generateScaleData k))"
  by (simp add: generated_low generated_high well_formed_def Let_def upt_rec getFrequency_less)


lemma key_A: "BASE_C3_MIDI + (case KEY_OFFSETS ''A'' of None \<Rightarrow> 0 | Some v \<Rightarrow> v) = 57"
  by (simp add: BASE_C3_MIDI_def KEY_OFFSETS_def)

lemma position_A440_low:
  "calculateScalePosition 440 (scaleLow (generateScaleData ''A'')) = Inr (Some 7)"
proof -
  have "freq (scaleLow (generateScaleData ''A'') ! 7) = 440"
    by (simp add: generated_low key_A getFrequency_69)
  then show ?thesis
    using exact_tone_position [of "scaleLow (generateScaleData ''A'')" 7] generated_well_formed
    by simp
qed

lemma position_A440_high:
  "calculateScalePosition 440 (scaleHigh (generateScaleData ''A'')) = Inr (Some 0)"
proof -
  have "freq (scaleHigh (generateScaleData ''A'') ! 0) = 440"
    by (simp add: generated_high key_A getFrequency_69)
  then show ?thesis
    using exact_tone_position [of "scaleHigh (generateScaleData ''A'')" 0] generated_well_formed
    by simp
qed

text \<open>
  C7. For a well-formed scale definition and the frequency of its tone i, the position
  within the definition is exactly i.
\<close>

theorem C7_exact_tone_snap:
  "well_formed scale \<Longrightarrow> i < 8 \<Longrightarrow> f = freq (scale ! i) \<Longrightarrow>
   calculateScalePosition f scale = Inr (Some (real i)) \<and> frac (real i) = 0"
  using exact_tone_position by simp

theorem C7_exact_tone_snap_witness:
  "well_formed (scaleLow (generateScaleData ''A'')) \<and> (7::nat) < 8
   \<and> 440 = freq (scaleLow (generateScaleData ''A'') ! 7)
   \<and> calculateScalePosition 440 (scaleLow (generateScaleData ''A'')) = Inr (Some 7)"
proof -
  have wf: "well_formed (scaleLow (generateScaleData ''A''))"
    using generated_well_formed by simp
  have fr: "440 = freq (scaleLow (generateScaleData ''A'') ! 7)"
    by (simp add: generated_low key_A getFrequency_69)
  have i: "(7::nat) < 8" by simp
  from C7_exact_tone_snap [OF wf i fr] wf fr show ?thesis by simp
qed

text \<open>
  C8. For well-formed low and high scale definitions the mapper's result for any
  frequency and any continuity state is null or a position between 0 and 7; it is never
  a fault.
\<close>

theorem C8_position_range:
  "well_formed low \<Longrightarrow> well_formed high \<Longrightarrow>
   \<exists>r. getPosition f low high prev = Inr r \<and> (r = None \<or> (\<exists>p. r = Some p \<and> 0 \<le> p \<and> p \<le> 7))"
proof -
  assume wl: "well_formed low" and wh: "well_formed high"
  from position_range [OF wl, of f] obtain rl where
    rl: "calculateScalePosition f low = Inr rl" "\<forall>p. rl = Some p \<longrightarrow> 0 \<le> p \<and> p \<le> 7"
    by blast
  from position_range [OF wh, of f] obtain rh where
    rh: "calculateScalePosition f high = Inr rh" "\<forall>p. rh = Some p \<longrightarrow> 0 \<le> p \<and> p \<le> 7"
    by blast
  show ?thesis
    using rl rh by (cases rl; cases rh; cases prev) (auto simp: getPosition_def)
qed

theorem C8_position_range_witness:
  "well_formed (scaleLow (generateScaleData ''A'')) \<and> well_formed (scaleHigh (generateScaleData ''A''))
   \<and> getPosition 440 (scaleLow (generateScaleData ''A'')) (scaleHigh (generateScaleData ''A'')) (Some 2)
       = Inr (Some 0)"
proof -
  have wl: "well_formed (scaleLow (generateScaleData ''A''))"
   and wh: "well_formed (scaleHigh (generateScaleData ''A''))"
    using generated_well_formed by simp_all
  from C8_position_range [OF wl wh, of 440 "Some 2"] wl wh show ?thesis
    by (simp add: getPosition_def position_A440_low position_A440_high)
qed

lemma KEY_OFFSETS_nonneg: "0 \<le> (case KEY_OFFSETS k of None \<Rightarrow> 0 | Some v \<Rightarrow> v)"
  by (simp add: KEY_OFFSETS_def)

lemma generated_high_positive:
  assumes "calculateScalePosition f (scaleHigh (generateScaleData k)) = Inr (Some p)"
  shows "0 < f"
proof -
  let ?r = "BASE_C3_MIDI + (case KEY_OFFSETS k of None \<Rightarrow> 0 | Some v \<Rightarrow> v)"
  have "57 \<le> ?r + 12"
    using KEY_OFFSETS_nonneg [of k] by (simp add: BASE_C3_MIDI_def)
  then have "getFrequency 57 \<le> getFrequency (?r + 12)"
    using getFrequency_less [of 57 "?r + 12"] by (cases "57 = ?r + 12") auto
  then have lo: "220 \<le> getFrequency (?r + 12)"
    by (simp add: getFrequency_57)
  have hd: "freq (hd (scaleHigh (generateScaleData k))) = getFrequency (?r + 12)"
    by (simp add: generated_high Let_def)
  have "\<not> f < freq (hd (scaleHigh (generateScaleData k))) - 15"
    using assms by (auto simp: calculateScalePosition_def Let_def split: if_splits)
  with lo hd show ?thesis by simp
qed

text \<open>
  C5. For a frequency that has a position in both scale definitions, the mapper
  returns the low definition's position when the continuity state is above 3.5 (as at
  7), the high definition's when it is 3.5 or below (as at 0), and the low definition's
  when there is no continuity state yet. The frequency is above 0, or the two
  definitions are those generated for one of the keys: a frequency with a position in
  a generated high definition is above 0.
\<close>

theorem C5_hysteresis:
  assumes low: "calculateScalePosition f low = Inr (Some pl)"
    and high: "calculateScalePosition f high = Inr (Some ph)"
    and range: "0 < f \<or> (\<exists>k. k \<in> set KEYS \<and> low = scaleLow (generateScaleData k)
                             \<and> high = scaleHigh (generateScaleData k))"
  shows "(\<forall>prev. prev > 3.5 \<longrightarrow> getPosition f low high (Some prev) = Inr (Some pl))
   \<and> (\<forall>prev. prev \<le> 3.5 \<longrightarrow> getPosition f low high (Some prev) = Inr (Some ph))
   \<and> getPosition f low high (Some 7) = Inr (Some pl)
   \<and> getPosition f low high (Some 0) = Inr (Some ph)
   \<and> getPosition f low high None = Inr (Some pl)"
proof -
  from range high have "0 < f"
    using generated_high_positive by blast
  with low high show ?thesis
    by (simp add: getPosition_def)
qed

theorem C5_hysteresis_witness:
  "calculateScalePosition 440 (scaleLow (generateScaleData ''A'')) = Inr (Some 7)
   \<and> calculateScalePosition 440 (scaleHigh (generateScaleData ''A'')) = Inr (Some 0)
   \<and> (0::real) < 440
   \<and> (4::real) > 3.5
   \<and> getPosition 440 (scaleLow (generateScaleData ''A'')) (scaleHigh (generateScaleData ''A''))
        (Some 4) = Inr (Some 7)
   \<and> (1::real) \<le> 3.5
   \<and> getPosition 440 (scaleLow (generateScaleData ''A'')) (scaleHigh (generateScaleData ''A''))
        (Some 1) = Inr (Some 0)
   \<and> getPosition 440 (scaleLow (generateScaleData ''A'')) (scaleHigh (generateScaleData ''A''))
        None = Inr (Some 7)"
proof -
  have "''A'' \<in> set KEYS" by (simp add: KEYS_def)
  then have pos: "(0::real) < 440 \<or> (\<exists>k. k \<in> set KEYS
                     \<and> scaleLow (generateScaleData ''A'') = scaleLow (generateScaleData k)
                     \<and> scaleHigh (generateScaleData ''A'') = scaleHigh (generateScaleData k))"
    by blast
  from C5_hysteresis [OF position_A440_low position_A440_high pos]
  show ?thesis
    using position_A440_low position_A440_high by simp
qed

subsection \<open>The tower across renders\<close>

lemma note_effect_prev [simp]:
  "prevPositionRef (note_effect f now st) = prevPositionRef st"
  "positionDep (note_effect f now st) = positionDep st"
  by (simp_all add: note_effect_def)

lemma position_effect_Some:
  "deps_consistent st \<Longrightarrow> prevPositionRef (position_effect (Some p) st) = Some p"
  by (auto simp: position_effect_def deps_consistent_def)

lemma position_effect_None:
  "prevPositionRef (position_effect None st) = prevPositionRef st"
  by (simp add: position_effect_def)

lemma position_effect_consistent:
  "deps_consistent st \<Longrightarrow> deps_consistent (position_effect pos st)"
  by (cases pos) (auto simp: position_effect_def deps_consistent_def)

lemma render_Inr:
  "render f sd l now st = Inr (v, st') \<Longrightarrow>
   \<exists>pos. getPosition f (scaleLow sd) (scaleHigh sd) (prevPositionRef st) = Inr pos
        \<and> v = view_of pos l \<and> st' = note_effect f now (position_effect pos st)"
  by (auto simp: render_def split: sum.splits)

lemma view_of_position [simp]: "position (view_of pos l) = pos"
  by (simp add: view_of_def Let_def)

lemma reachable_consistent: "reachable st \<Longrightarrow> deps_consistent st"
proof (induction rule: reachable.induct)
  case initial
  show ?case by (simp add: deps_consistent_def tower_init_def)
next
  case (rendered st f sd l now v st')
  from render_Inr [OF rendered.hyps(2)] obtain pos where
    "st' = note_effect f now (position_effect pos st)" by blast
  with rendered.IH show ?case
    using position_effect_consistent [of st pos] by (simp add: deps_consistent_def)
qed

lemma getNoteName_unfold:
  "0 < frequency \<Longrightarrow> 12 * (ln (frequency / 440) / ln 2) + 69 = noteNum \<Longrightarrow>
   round noteNum = roundedNote \<Longrightarrow>
   (if js_rem (js_rem roundedNote 12 + 12) 12 \<in> set NARROW_INDICES
       \<and> \<bar>noteNum - of_int roundedNote\<bar> > 0.25
    then (if noteNum - of_int roundedNote > 0 then roundedNote + 1 else roundedNote - 1)
    else roundedNote) = roundedNote2 \<Longrightarrow>
   getNoteName frequency =
     noteStrings ! nat (js_rem (js_rem roundedNote2 12 + 12) 12)
       @ number_to_string (\<lfloor>of_int roundedNote2 / (12::real)\<rfloor> - 1)"
  unfolding getNoteName_def Let_def by (simp only: not_le [symmetric] if_False)

lemma getNoteName_440: "getNoteName 440 = ''A4''"
proof -
  have "getNoteName 440 = noteStrings ! nat (js_rem (js_rem 69 12 + 12) 12)
       @ number_to_string (\<lfloor>of_int 69 / (12::real)\<rfloor> - 1)"
    by (rule getNoteName_unfold [where noteNum = 69 and roundedNote = 69])
       (simp_all add: js_rem_def NARROW_INDICES_def)
  then show ?thesis
    by (simp add: js_rem_def noteStrings_def number_to_string_def decimal_digits.simps [of 4] digit_char_def)
qed

lemma render_A440:
  "render 440 (generateScaleData ''A'') True 5000 tower_init =
     Inr (\<lparr>position = Some 7, renderPosition = Some 7, bottomPercent = Some 93.75\<rparr>,
          \<lparr>prevPositionRef = Some 7, displayedNote = ''A4'', lastNoteUpdateRef = 5000,
           positionDep = Some (Some 7), frequencyDep = Some 440\<rparr>)"
  by (simp add: render_def getPosition_def position_A440_low position_A440_high tower_init_def
      view_of_def Let_def position_effect_def note_effect_def getNoteName_440)

lemma render_silence:
  "render (- 1) (generateScaleData ''A'') True 5300
     \<lparr>prevPositionRef = Some 7, displayedNote = ''A4'', lastNoteUpdateRef = 5000,
      positionDep = Some (Some 7), frequencyDep = Some 440\<rparr> =
     Inr (\<lparr>position = None, renderPosition = Some (- 0.5), bottomPercent = Some 0\<rparr>,
          \<lparr>prevPositionRef = Some 7, displayedNote = [], lastNoteUpdateRef = 5000,
           positionDep = Some None, frequencyDep = Some (- 1)\<rparr>)"
  by (simp add: render_def getPosition_def view_of_def Let_def position_effect_def
      note_effect_def)

text \<open>
  C6. After a render of the tower in a state that renders have led to, the continuity
  state is the position just computed when that position is not null, and is what it was
  before when the position is null; while listening with a null position the indicator
  rests at -0.5 and the continuity state is not touched.
\<close>

theorem C6_continuity_update:
  "reachable st \<Longrightarrow> render f sd l now st = Inr (v, st') \<Longrightarrow>
   getPosition f (scaleLow sd) (scaleHigh sd) (prevPositionRef st) = Inr (position v)
   \<and> (\<forall>p. position v = Some p \<longrightarrow> prevPositionRef st' = Some p)
   \<and> (position v = None \<longrightarrow> prevPositionRef st' = prevPositionRef st)
   \<and> (position v = None \<and> l \<longrightarrow>
        renderPosition v = Some (- 0.5) \<and> prevPositionRef st' = prevPositionRef st)"
proof -
  assume r: "reachable st" and rn: "render f sd l now st = Inr (v, st')"
  from render_Inr [OF rn] obtain pos where
    pos: "getPosition f (scaleLow sd) (scaleHigh sd) (prevPositionRef st) = Inr pos"
         "v = view_of pos l" "st' = note_effect f now (position_effect pos st)"
    by blast
  from r have c: "deps_consistent st" by (rule reachable_consistent)
  show ?thesis
  proof (cases pos)
    case None
    with pos show ?thesis
      by (simp add: position_effect_None view_of_def Let_def)
  next
    case (Some p)
    with pos c show ?thesis
      by (simp add: position_effect_Some)
  qed
qed

theorem C6_continuity_update_witness:
  "reachable tower_init
   \<and> render 440 (generateScaleData ''A'') True 5000 tower_init =
       Inr (\<lparr>position = Some 7, renderPosition = Some 7, bottomPercent = Some 93.75\<rparr>,
            \<lparr>prevPositionRef = Some 7, displayedNote = ''A4'', lastNoteUpdateRef = 5000,
             positionDep = Some (Some 7), frequencyDep = Some 440\<rparr>)
   \<and> reachable \<lparr>prevPositionRef = Some 7, displayedNote = ''A4'', lastNoteUpdateRef = 5000,
                 positionDep = Some (Some 7), frequencyDep = Some 440\<rparr>
   \<and> render (- 1) (generateScaleData ''A'') True 5300
        \<lparr>prevPositionRef = Some 7, displayedNote = ''A4'', lastNoteUpdateRef = 5000,
         positionDep = Some (Some 7), frequencyDep = Some 440\<rparr> =
       Inr (\<lparr>position = None, renderPosition = Some (- 0.5), bottomPercent = Some 0\<rparr>,
            \<lparr>prevPositionRef = Some 7, displayedNote = [], lastNoteUpdateRef = 5000,
             positionDep = Some None, frequencyDep = Some (- 1)\<rparr>)"
proof -
  have r0: "reachable tower_init" by (rule reachable.initial)
  have r1: "reachable \<lparr>prevPositionRef = Some 7, displayedNote = ''A4'', lastNoteUpdateRef = 5000,
                 positionDep = Some (Some 7), frequencyDep = Some 440\<rparr>"
    by (rule reachable.rendered [OF r0 render_A440])
  from C6_continuity_update [OF r0 render_A440] C6_continuity_update [OF r1 render_silence]
  show ?thesis
    using r0 r1 render_A440 render_silence by simp
qed

text \<open>
  C10. For a frequency of 0 or below, the sentinel -1 among them, the mapper returns
  null whatever the scale definitions and the continuity state are, and the render of
  that poll shows no position and leaves the continuity state as it was.
\<close>

theorem C10_no_pitch_poll:
  "f \<le> 0 \<Longrightarrow>
   getPosition f low high prev = Inr None
   \<and> getPosition (- 1) low high prev = Inr None
   \<and> (\<exists>v st'. render f sd l now st = Inr (v, st') \<and> position v = None
         \<and> prevPositionRef st' = prevPositionRef st)"
  by (simp add: getPosition_def render_def position_effect_None)

theorem C10_no_pitch_poll_witness:
  "(- 1 :: real) \<le> 0
   \<and> getPosition (- 1) (scaleLow (generateScaleData ''A'')) [] (Some 7) = Inr None
   \<and> (\<exists>v st'. render (- 1) (generateScaleData ''A'') True 5300
        \<lparr>prevPositionRef = Some 7, displayedNote = ''A4'', lastNoteUpdateRef = 5000,
         positionDep = Some (Some 7), frequencyDep = Some 440\<rparr> = Inr (v, st')
         \<and> position v = None \<and> prevPositionRef st' = Some 7)"
proof -
  have h: "(- 1 :: real) \<le> 0" by simp
  from C10_no_pitch_poll [OF h, of "scaleLow (generateScaleData ''A'')" "[]" "Some 7"
      "generateScaleData ''A''" True 5300
      "\<lparr>prevPositionRef = Some 7, displayedNote = ''A4'', lastNoteUpdateRef = 5000,
         positionDep = Some (Some 7), frequencyDep = Some 440\<rparr>"]
  show ?thesis by simp
qed

subsection \<open>The note namer\<close>

lemma js_rem_12: "js_rem (js_rem r 12 + 12) 12 = r mod 12"
proof (cases "0 \<le> r")
  case True
  then have a: "js_rem r 12 = r mod 12"
    by (cases "r = 0") (simp_all add: js_rem_def)
  have "0 \<le> r mod 12" "r mod 12 < 12" by simp_all
  then have "js_rem (r mod 12 + 12) 12 = (r mod 12 + 12) mod 12"
    by (simp add: js_rem_def)
  with a show ?thesis by simp
next
  case False
  define k where "k = (- r) mod 12"
  have kb: "0 \<le> k" "k < 12" by (simp_all add: k_def)
  from False have a: "js_rem r 12 = - k"
    by (simp add: js_rem_def k_def)
  have rm: "r mod 12 = (if k = 0 then 0 else 12 - k)"
    using zmod_zminus1_eq_if [of "- r" 12] by (simp add: k_def)
  have "js_rem (- k + 12) 12 = (- k + 12) mod 12"
    using kb by (simp add: js_rem_def)
  also have "\<dots> = (if k = 0 then 0 else 12 - k)"
    using kb zmod_zminus1_eq_if [of k 12] by simp
  finally show ?thesis using a rm by simp
qed

lemma floor_div_12: "\<lfloor>of_int r / (12::real)\<rfloor> = r div 12"
  using floor_divide_of_int_eq [of r 12, where ?'a = real] by simp

lemma note_above_C_sharp:
  assumes m: "m mod 12 = 1"
  shows "getNoteName (440 * 2 powr ((of_int m + 0.3 - 69) / 12))
           = ''D'' @ number_to_string ((m + 1) div 12 - 1)"
proof -
  let ?f = "440 * 2 powr ((of_int m + 0.3 - 69) / 12) :: real"
  have pos: "0 < ?f" by simp
  have n: "12 * (ln (?f / 440) / ln 2) + 69 = of_int m + 0.3"
  proof -
    have "ln (?f / 440) = (of_int m + 0.3 - 69) / 12 * ln 2"
      by (simp add: ln_powr)
    then show ?thesis by (simp add: field_simps)
  qed
  have rd: "round (of_int m + 0.3 :: real) = m"
    unfolding round_def by linarith
  have i1: "js_rem (js_rem m 12 + 12) 12 = 1" using m by (simp only: js_rem_12)
  have adj: "(if js_rem (js_rem m 12 + 12) 12 \<in> set NARROW_INDICES
                 \<and> \<bar>(of_int m + 0.3 :: real) - of_int m\<bar> > 0.25
              then (if (of_int m + 0.3 :: real) - of_int m > 0 then m + 1 else m - 1)
              else m) = m + 1"
    by (simp add: i1 NARROW_INDICES_def)
  have "getNoteName ?f = noteStrings ! nat (js_rem (js_rem (m + 1) 12 + 12) 12)
       @ number_to_string (\<lfloor>of_int (m + 1) / (12::real)\<rfloor> - 1)"
    by (rule getNoteName_unfold [OF pos n rd adj])
  also have "js_rem (js_rem (m + 1) 12 + 12) 12 = 2"
    using m by (simp only: js_rem_12) presburger
  also have "\<lfloor>of_int (m + 1) / (12::real)\<rfloor> = (m + 1) div 12"
    by (rule floor_div_12)
  finally show ?thesis
    by (simp add: noteStrings_def)
qed

lemma getNoteName_spec: "0 < f \<Longrightarrow> getNoteName f = spec_note_name f"
proof -
  assume pos: "0 < f"
  define n where "n = 12 * (ln (f / 440) / ln 2) + 69"
  define r where "r = round n"
  define r2 where "r2 = (if js_rem (js_rem r 12 + 12) 12 \<in> set NARROW_INDICES
       \<and> \<bar>n - of_int r\<bar> > 0.25
    then (if n - of_int r > 0 then r + 1 else r - 1)
    else r)"
  have g: "getNoteName f = noteStrings ! nat (js_rem (js_rem r2 12 + 12) 12)
       @ number_to_string (\<lfloor>of_int r2 / (12::real)\<rfloor> - 1)"
    by (rule getNoteName_unfold [OF pos n_def [symmetric] r_def [symmetric] r2_def [symmetric]])
  have n': "69 + 12 * log 2 (f / 440) = n"
    by (simp add: n_def log_def)
  have r2': "r2 = (if r mod 12 \<in> {1, 3, 8, 10} \<and> \<bar>n - of_int r\<bar> > 1 / 4
                   then (if n - of_int r > 0 then r + 1 else r - 1) else r)"
    unfolding r2_def js_rem_12 by (simp add: NARROW_INDICES_def)
  have "spec_note_name f = noteStrings ! nat (r2 mod 12) @ number_to_string (r2 div 12 - 1)"
    unfolding spec_note_name_def Let_def n' r_def [symmetric] r2' [symmetric] ..
  with g show ?thesis
    by (simp only: js_rem_12 floor_div_12)
qed

lemma number_to_string_4: "number_to_string 4 = ''4''"
  by (simp add: number_to_string_def decimal_digits.simps [of 4] digit_char_def)

text \<open>
  C9. For a frequency above 0 the note namer does what the specification describes: the
  note number 69 + 12 log2(f/440) is rounded; exactly when the residue of the rounded
  number modulo 12 is 1, 3, 8 or 10 and the deviation is above 0.25 in absolute value,
  the rounded number moves one semitone towards the note number; the label is the name
  of the residue followed by the octave, the floored quotient by 12 minus 1. So 440 Hz
  is named A4, and a frequency 0.3 semitone above a C sharp is named D, in the octave of
  the note number above it (D4 above the C sharp of note number 61).
\<close>

theorem C9_note_namer:
  "(\<forall>f. 0 < f \<longrightarrow> getNoteName f = spec_note_name f)
   \<and> getNoteName 440 = ''A4''
   \<and> (\<forall>m. m mod 12 = 1 \<longrightarrow>
         getNoteName (440 * 2 powr ((of_int m + 0.3 - 69) / 12))
           = ''D'' @ number_to_string ((m + 1) div 12 - 1))
   \<and> getNoteName (440 * 2 powr ((61.3 - 69) / 12)) = ''D4''"
proof -
  have "getNoteName (440 * 2 powr ((of_int 61 + 0.3 - 69) / 12))
          = ''D'' @ number_to_string ((61 + 1) div 12 - 1)"
    by (rule note_above_C_sharp) simp
  then have "getNoteName (440 * 2 powr ((61.3 - 69) / 12)) = ''D4''"
    by (simp add: number_to_string_4)
  then show ?thesis
    using getNoteName_spec getNoteName_440 note_above_C_sharp by blast
qed

theorem C9_note_namer_witness:
  "(0::real) < 440 \<and> getNoteName 440 = spec_note_name 440 \<and> spec_note_name 440 = ''A4''
   \<and> (61::int) mod 12 = 1
   \<and> getNoteName (440 * 2 powr ((of_int 61 + 0.3 - 69) / 12))
        = ''D'' @ number_to_string ((61 + 1) div 12 - 1)"
proof -
  have h1: "(0::real) < 440" by simp
  have h2: "(61::int) mod 12 = 1" by simp
  from C9_note_namer have a: "getNoteName 440 = spec_note_name 440"
    using h1 by blast
  from C9_note_namer have b: "getNoteName 440 = ''A4''"
    by blast
  from C9_note_namer have c: "getNoteName (440 * 2 powr ((of_int 61 + 0.3 - 69) / 12))
        = ''D'' @ number_to_string ((61 + 1) div 12 - 1)"
    using h2 by blast
  from a b have "spec_note_name 440 = ''A4''" by simp
  with h1 h2 a c show ?thesis by blast
qed

subsection \<open>The pitch estimator\<close>

text \<open>Every read of the frame by the inner loop is inside the frame.\<close>

lemma frame_reads_in_range:
  "i < length buf div 2 \<Longrightarrow> offset < length buf div 2 \<Longrightarrow> i + offset < length buf"
  by simp

lemma correlation_at_zero: "correlation_at buf M 0 = 1"
  by (simp add: correlation_at_def)

lemma correlation_at_le_one: "correlation_at buf M lag \<le> 1"
proof -
  have "0 \<le> (\<Sum>i\<leftarrow>[0..<M]. \<bar>buf ! i - buf ! (i + lag)\<bar>)"
    by (rule sum_list_nonneg) auto
  then have "0 \<le> (\<Sum>i\<leftarrow>[0..<M]. \<bar>buf ! i - buf ! (i + lag)\<bar>) / real M"
    by simp
  then show ?thesis
    by (simp add: correlation_at_def)
qed

lemma qualifies_iff:
  "qualifies buf lag \<longleftrightarrow>
     correlation_at buf (length buf div 2) lag > 0.9
     \<and> correlation_at buf (length buf div 2) lag
         > (if lag = 0 then 1 else correlation_at buf (length buf div 2) (lag - 1))"
  by (simp add: qualifies_def Let_def)

lemma not_qualifies_first_two: "lag < 2 \<Longrightarrow> \<not> qualifies buf lag"
proof -
  assume "lag < 2"
  then consider "lag = 0" | "lag = 1" by linarith
  then show ?thesis
  proof cases
    case 1
    then show ?thesis by (simp add: qualifies_iff correlation_at_zero)
  next
    case 2
    then show ?thesis
      using correlation_at_le_one [of buf "length buf div 2" 1]
      by (simp add: qualifies_iff correlation_at_zero)
  qed
qed

lemma scan_no_peak:
  assumes M: "M = length buf div 2"
  shows "\<not> foundGoodCorrelation st \<Longrightarrow> bestCorrelation st = 0 \<Longrightarrow>
         lastCorrelation st = (if offset = 0 then 1 else correlation_at buf M (offset - 1)) \<Longrightarrow>
         (\<forall>lag. offset \<le> lag \<and> lag < M \<longrightarrow> \<not> qualifies buf lag) \<Longrightarrow>
         scan buf R M offset st = Num (- 1)"
proof (induction "M - offset" arbitrary: offset st)
  case 0
  then show ?case by (simp add: scan.simps [of buf R M offset st])
next
  case (Suc n)
  then have lt: "offset < M" by simp
  let ?c = "correlation_at buf M offset"
  let ?st1 = "st\<lparr>correlations := (correlations st)[offset := ?c]\<rparr>"
  from Suc.prems lt have nq: "\<not> (?c > 0.9 \<and> ?c > lastCorrelation st)"
    using M by (auto simp: qualifies_iff)
  from nq have cond: "(?c > 0.9 \<and> ?c > lastCorrelation st) = False" by blast
  from Suc.prems(1) have nf: "foundGoodCorrelation st = False" by simp
  have step: "scan buf R M offset st = scan buf R M (offset + 1) (?st1\<lparr>lastCorrelation := ?c\<rparr>)"
    by (subst scan.simps) (simp only: Let_def lt if_True cond if_False nf)
  have "scan buf R M (offset + 1) (?st1\<lparr>lastCorrelation := ?c\<rparr>) = Num (- 1)"
  proof (rule Suc.hyps(1))
    show "n = M - (offset + 1)" using Suc.hyps(2) by simp
    show "\<not> foundGoodCorrelation (?st1\<lparr>lastCorrelation := ?c\<rparr>)" using Suc.prems(1) by simp
    show "bestCorrelation (?st1\<lparr>lastCorrelation := ?c\<rparr>) = 0" using Suc.prems(2) by simp
    show "lastCorrelation (?st1\<lparr>lastCorrelation := ?c\<rparr>)
            = (if offset + 1 = 0 then 1 else correlation_at buf M (offset + 1 - 1))" by simp
    show "\<forall>lag. offset + 1 \<le> lag \<and> lag < M \<longrightarrow> \<not> qualifies buf lag"
      using Suc.prems(4) by simp
  qed
  with step show ?case by simp
qed

lemma no_qualifying_peak_iff:
  "no_qualifying_peak buf \<longleftrightarrow> (\<forall>lag < length buf div 2. \<not> qualifies buf lag)"
  by (auto simp: no_qualifying_peak_def list_all_iff)

lemma autoCorrelate_no_peak:
  "no_qualifying_peak buf \<Longrightarrow> autoCorrelate buf R = Num (- 1)"
proof -
  assume "no_qualifying_peak buf"
  then have nq: "\<forall>lag. 0 \<le> lag \<and> lag < length buf div 2 \<longrightarrow> \<not> qualifies buf lag"
    by (simp add: no_qualifying_peak_iff)
  have "scan buf R (length buf div 2) 0 (scan_init (length buf div 2)) = Num (- 1)"
    by (rule scan_no_peak [OF refl _ _ _ nq]) (simp_all add: scan_init_def)
  then show ?thesis
    by (simp add: autoCorrelate_def Let_def)
qed

lemma scan_skip:
  assumes M: "M = length buf div 2"
  shows "\<not> foundGoodCorrelation st \<Longrightarrow> bestCorrelation st = 0 \<Longrightarrow>
         lastCorrelation st = (if offset = 0 then 1 else correlation_at buf M (offset - 1)) \<Longrightarrow>
         offset \<le> first \<Longrightarrow> first \<le> M \<Longrightarrow>
         (\<forall>lag. offset \<le> lag \<and> lag < first \<longrightarrow> \<not> qualifies buf lag) \<Longrightarrow>
         \<exists>st'. scan buf R M offset st = scan buf R M first st'
              \<and> \<not> foundGoodCorrelation st' \<and> bestCorrelation st' = 0
              \<and> lastCorrelation st' = (if first = 0 then 1 else correlation_at buf M (first - 1))"
proof (induction "first - offset" arbitrary: offset st)
  case 0
  then have "offset = first" by simp
  with "0.prems" show ?case by blast
next
  case (Suc n)
  then have lt: "offset < M" and lf: "offset < first" by simp_all
  let ?c = "correlation_at buf M offset"
  let ?st1 = "st\<lparr>correlations := (correlations st)[offset := ?c]\<rparr>"
  from Suc.prems lf have nq: "\<not> (?c > 0.9 \<and> ?c > lastCorrelation st)"
    using M by (auto simp: qualifies_iff)
  then have cond: "(?c > 0.9 \<and> ?c > lastCorrelation st) = False" by blast
  from Suc.prems(1) have nf: "foundGoodCorrelation st = False" by simp
  have step: "scan buf R M offset st = scan buf R M (offset + 1) (?st1\<lparr>lastCorrelation := ?c\<rparr>)"
    by (subst scan.simps) (simp only: Let_def lt if_True cond if_False nf)
  have "\<exists>st'. scan buf R M (offset + 1) (?st1\<lparr>lastCorrelation := ?c\<rparr>) = scan buf R M first st'
              \<and> \<not> foundGoodCorrelation st' \<and> bestCorrelation st' = 0
              \<and> lastCorrelation st' = (if first = 0 then 1 else correlation_at buf M (first - 1))"
  proof (rule Suc.hyps(1))
    show "n = first - (offset + 1)" using Suc.hyps(2) by simp
    show "\<not> foundGoodCorrelation (?st1\<lparr>lastCorrelation := ?c\<rparr>)" using Suc.prems(1) by simp
    show "bestCorrelation (?st1\<lparr>lastCorrelation := ?c\<rparr>) = 0" using Suc.prems(2) by simp
    show "lastCorrelation (?st1\<lparr>lastCorrelation := ?c\<rparr>)
            = (if offset + 1 = 0 then 1 else correlation_at buf M (offset + 1 - 1))" by simp
    show "offset + 1 \<le> first" using lf by simp
    show "first \<le> M" by (rule Suc.prems(5))
    show "\<forall>lag. offset + 1 \<le> lag \<and> lag < first \<longrightarrow> \<not> qualifies buf lag"
      using Suc.prems(6) by simp
  qed
  with step show ?case by simp
qed

lemma scan_ascent:
  assumes M: "M = length buf div 2"
  shows "offset < M \<Longrightarrow>
         (\<forall>lag. offset \<le> lag \<and> lag < M \<longrightarrow> qualifies buf lag) \<Longrightarrow>
         lastCorrelation st = (if offset = 0 then 1 else correlation_at buf M (offset - 1)) \<Longrightarrow>
         bestCorrelation st \<le> 0.9 \<or> bestCorrelation st \<le> lastCorrelation st \<Longrightarrow>
         scan buf R M offset st = Num (R / real (M - 1))"
proof (induction "M - offset" arbitrary: offset st)
  case 0
  then show ?case by simp
next
  case (Suc n)
  let ?c = "correlation_at buf M offset"
  let ?st1 = "st\<lparr>correlations := (correlations st)[offset := ?c]\<rparr>"
  let ?st2 = "?st1\<lparr>foundGoodCorrelation := True, bestCorrelation := ?c,
                    bestOffset := int offset\<rparr>\<lparr>lastCorrelation := ?c\<rparr>"
  from Suc.prems have lt: "offset < M" by simp
  from Suc.prems have q: "qualifies buf offset" by simp
  then have o2: "2 \<le> offset" using not_qualifies_first_two [of offset buf] by force
  from q Suc.prems(3) have c: "?c > 0.9 \<and> ?c > lastCorrelation st"
    unfolding M qualifies_iff by (cases "offset = 0") simp_all
  then have cond: "(?c > 0.9 \<and> ?c > lastCorrelation st) = True" by simp
  from c Suc.prems(4) have "?c > bestCorrelation st" by linarith
  then have upd: "(?c > bestCorrelation st) = True" by simp
  have step: "scan buf R M offset st = scan buf R M (offset + 1) ?st2"
    by (subst scan.simps) (simp only: Let_def lt if_True cond upd)
  show ?case
  proof (cases "offset + 1 < M")
    case True
    have "scan buf R M (offset + 1) ?st2 = Num (R / real (M - 1))"
    proof (rule Suc.hyps(1))
      show "n = M - (offset + 1)" using Suc.hyps(2) by simp
      show "offset + 1 < M" by (rule True)
      show "\<forall>lag. offset + 1 \<le> lag \<and> lag < M \<longrightarrow> qualifies buf lag"
        using Suc.prems(2) by simp
      show "lastCorrelation ?st2
              = (if offset + 1 = 0 then 1 else correlation_at buf M (offset + 1 - 1))" by simp
      show "bestCorrelation ?st2 \<le> 0.9 \<or> bestCorrelation ?st2 \<le> lastCorrelation ?st2"
        by simp
    qed
    with step show ?thesis by simp
  next
    case False
    with lt have last: "offset + 1 = M" by simp
    then have nlt: "(offset + 1 < M) = False" by simp
    from c have big: "bestCorrelation ?st2 > 0.01" by simp
    have "scan buf R M (offset + 1) ?st2 = js_div R (of_int (bestOffset ?st2))"
      using big by (subst scan.simps) (simp only: nlt if_False if_True)
    also have "\<dots> = Num (R / real offset)"
      using o2 by (simp add: js_div_def)
    finally show ?thesis using step last by auto
  qed
qed

lemma js_div_defined: "js_div a b \<noteq> UndefinedRead"
  by (simp add: js_div_def)

lemma interpolate_defined:
  "0 < bestOffset st \<Longrightarrow> bestOffset st + 1 < int (length (correlations st)) \<Longrightarrow>
   interpolate R st \<noteq> UndefinedRead"
  by (simp add: interpolate_def read_at_def js_div_defined)

lemma scan_defined:
  assumes M: "M = length buf div 2"
  shows "length (correlations st) = M \<Longrightarrow>
         lastCorrelation st = (if offset = 0 then 1 else correlation_at buf M (offset - 1)) \<Longrightarrow>
         (foundGoodCorrelation st \<longrightarrow> 2 \<le> bestOffset st \<and> bestOffset st < int offset) \<Longrightarrow>
         (\<not> foundGoodCorrelation st \<longrightarrow> bestCorrelation st = 0) \<Longrightarrow>
         scan buf R M offset st \<noteq> UndefinedRead"
proof (induction "M - offset" arbitrary: offset st)
  case 0
  then have nlt: "(offset < M) = False" by simp
  show ?case
    by (subst scan.simps) (simp add: nlt js_div_defined)
next
  case (Suc n)
  let ?c = "correlation_at buf M offset"
  let ?st1 = "st\<lparr>correlations := (correlations st)[offset := ?c]\<rparr>"
  from Suc.hyps(2) have lt: "offset < M" by simp
  have n: "n = M - (offset + 1)" using Suc.hyps(2) by simp
  show ?case
  proof (cases "?c > 0.9 \<and> ?c > lastCorrelation st")
    case True
    then have cond: "(?c > 0.9 \<and> ?c > lastCorrelation st) = True" by simp
    from True Suc.prems(2) have "qualifies buf offset"
      unfolding M qualifies_iff by (cases "offset = 0") simp_all
    then have o2: "2 \<le> offset" using not_qualifies_first_two [of offset buf] by force
    show ?thesis
    proof (cases "?c > bestCorrelation st")
      case True
      let ?st2 = "?st1\<lparr>foundGoodCorrelation := True, bestCorrelation := ?c,
                    bestOffset := int offset\<rparr>\<lparr>lastCorrelation := ?c\<rparr>"
      from True have upd: "(?c > bestCorrelation st) = True" by simp
      have step: "scan buf R M offset st = scan buf R M (offset + 1) ?st2"
        by (subst scan.simps) (simp only: Let_def lt if_True cond upd)
      have "scan buf R M (offset + 1) ?st2 \<noteq> UndefinedRead"
        using o2 Suc.prems(1) by (intro Suc.hyps(1) n) simp_all
      with step show ?thesis by simp
    next
      case False
      let ?st2 = "?st1\<lparr>foundGoodCorrelation := True\<rparr>\<lparr>lastCorrelation := ?c\<rparr>"
      from False have upd: "(?c > bestCorrelation st) = False" by simp
      from False \<open>?c > 0.9 \<and> ?c > lastCorrelation st\<close> Suc.prems(4)
      have f: "foundGoodCorrelation st" by force
      have step: "scan buf R M offset st = scan buf R M (offset + 1) ?st2"
        by (subst scan.simps) (simp only: Let_def lt if_True cond upd if_False)
      have "scan buf R M (offset + 1) ?st2 \<noteq> UndefinedRead"
        using f Suc.prems(1,3) by (intro Suc.hyps(1) n) auto
      with step show ?thesis by simp
    qed
  next
    case False
    then have cond: "(?c > 0.9 \<and> ?c > lastCorrelation st) = False" by simp
    show ?thesis
    proof (cases "foundGoodCorrelation st")
      case True
      then have f: "foundGoodCorrelation st = True" by simp
      have step: "scan buf R M offset st = interpolate R ?st1"
        by (subst scan.simps) (simp only: Let_def lt if_True cond if_False f)
      have "interpolate R ?st1 \<noteq> UndefinedRead"
        using True Suc.prems(1,3) lt by (intro interpolate_defined) auto
      with step show ?thesis by simp
    next
      case False
      then have f: "foundGoodCorrelation st = False" by simp
      have step: "scan buf R M offset st
                    = scan buf R M (offset + 1) (?st1\<lparr>lastCorrelation := ?c\<rparr>)"
        by (subst scan.simps) (simp only: Let_def lt if_True cond if_False f)
      have "scan buf R M (offset + 1) (?st1\<lparr>lastCorrelation := ?c\<rparr>) \<noteq> UndefinedRead"
        using False Suc.prems(1,4) by (intro Suc.hyps(1) n) simp_all
      with step show ?thesis by simp
    qed
  qed
qed

lemma autoCorrelate_defined: "autoCorrelate buf R \<noteq> UndefinedRead"
proof -
  have "scan buf R (length buf div 2) 0 (scan_init (length buf div 2)) \<noteq> UndefinedRead"
    by (rule scan_defined [OF refl]) (simp_all add: scan_init_def)
  then show ?thesis
    by (simp add: autoCorrelate_def Let_def)
qed

lemma autoCorrelate_ascent:
  assumes loud: "\<not> too_weak buf" and first: "first < length buf div 2"
    and before: "\<forall>lag < first. \<not> qualifies buf lag"
    and after: "\<forall>lag. first \<le> lag \<and> lag < length buf div 2 \<longrightarrow> qualifies buf lag"
  shows "autoCorrelate buf R = Num (R / real (length buf div 2 - 1))"
proof -
  let ?M = "length buf div 2"
  have "\<exists>st'. scan buf R ?M 0 (scan_init ?M) = scan buf R ?M first st'
              \<and> \<not> foundGoodCorrelation st' \<and> bestCorrelation st' = 0
              \<and> lastCorrelation st' = (if first = 0 then 1 else correlation_at buf ?M (first - 1))"
    using first before by (intro scan_skip [OF refl]) (simp_all add: scan_init_def)
  then obtain st' where st': "scan buf R ?M 0 (scan_init ?M) = scan buf R ?M first st'"
      "bestCorrelation st' = 0"
      "lastCorrelation st' = (if first = 0 then 1 else correlation_at buf ?M (first - 1))"
    by blast
  have "scan buf R ?M first st' = Num (R / real (?M - 1))"
    using first after st'(2,3) by (intro scan_ascent [OF refl]) simp_all
  with st'(1) loud show ?thesis
    by (simp add: autoCorrelate_def Let_def)
qed

lemma too_weak_iff:
  "too_weak buf \<longleftrightarrow>
     buf \<noteq> [] \<and> sum_list (map (\<lambda>val. val * val) buf) / real (length buf) < 0.0001"
proof -
  have "sqrt x < 0.01 \<longleftrightarrow> x < 0.0001" for x :: real
  proof -
    have e: "sqrt (0.0001 :: real) = 0.01"
      by (rule real_sqrt_unique) (simp_all add: power2_eq_square)
    have "sqrt x < sqrt 0.0001 \<longleftrightarrow> x < 0.0001"
      by (rule real_sqrt_less_iff)
    then show ?thesis by (simp only: e)
  qed
  then show ?thesis
    by (simp add: too_weak_def rms_of_def)
qed

lemma too_weak_silent: "too_weak buf \<Longrightarrow> autoCorrelate buf R = Num (- 1)"
  by (simp add: autoCorrelate_def Let_def)

lemma short_frame_no_peak: "length buf < 6 \<Longrightarrow> no_qualifying_peak buf"
proof -
  assume "length buf < 6"
  then have "length buf div 2 \<le> 2" by simp
  then show ?thesis
    using not_qualifies_first_two [of _ buf] by (simp add: no_qualifying_peak_iff)
qed

lemma getPitch_cases:
  "fst (getPitch a samples) = Num (- 1) \<or>
   (\<exists>R. fst (getPitch a samples) = autoCorrelate samples R)"
  by (auto simp: getPitch_def Let_def split: option.splits)

lemma correlation_at_constant:
  "M + lag \<le> n \<Longrightarrow> correlation_at (replicate n c) M lag = 1"
proof -
  assume le: "M + lag \<le> n"
  have "map (\<lambda>i. \<bar>replicate n c ! i - replicate n c ! (i + lag)\<bar>) [0..<M]
          = map (\<lambda>i. 0) [0..<M]"
    using le by (intro map_cong) auto
  then have "(\<Sum>i\<leftarrow>[0..<M]. \<bar>replicate n c ! i - replicate n c ! (i + lag)\<bar>) = 0"
    by (simp only: sum_list_0)
  then show ?thesis
    by (simp add: correlation_at_def)
qed

lemma constant_no_peak: "no_qualifying_peak (replicate n c)"
proof -
  have "\<not> qualifies (replicate n c) lag" if "lag < n div 2" for lag
  proof -
    from that have a: "n div 2 + lag \<le> n" by simp
    from that have b: "n div 2 + (lag - 1) \<le> n" by simp
    show ?thesis
      using correlation_at_constant [OF a] correlation_at_constant [OF b]
      by (simp add: qualifies_iff)
  qed
  then show ?thesis
    by (simp add: no_qualifying_peak_iff)
qed

lemma fold_best_constant:
  "(\<forall>lag \<in> set lags. correlation_at buf M lag = 1) \<Longrightarrow>
   fold (\<lambda>lag (best_lag, best_sim).
           let sim = correlation_at buf M lag
           in if sim > best_sim then (int lag, sim) else (best_lag, best_sim))
     lags (b, 1) = (b, 1)"
  by (induction lags) simp_all

lemma constant_spec_best: "2 \<le> n \<Longrightarrow> spec_best (replicate n c) = (0, 1)"
proof -
  assume n: "2 \<le> n"
  then have M: "0 < n div 2" by simp
  then have upt: "[0..<n div 2] = 0 # [Suc 0..<n div 2]" by (simp add: upt_conv_Cons)
  have all: "\<forall>lag \<in> set [Suc 0..<n div 2]. correlation_at (replicate n c) (n div 2) lag = 1"
  proof
    fix lag assume "lag \<in> set [Suc 0..<n div 2]"
    then have "lag < n div 2" by simp
    then have "n div 2 + lag \<le> n" by simp
    then show "correlation_at (replicate n c) (n div 2) lag = 1"
      by (rule correlation_at_constant)
  qed
  have zero: "correlation_at (replicate n c) (n div 2) 0 = 1"
    by (rule correlation_at_zero)
  show ?thesis
    unfolding spec_best_def length_replicate upt
    by (simp add: zero fold_best_constant [OF all])
qed

lemma alternating_frame:
  "\<not> too_weak [1, 0, 1, 0, 1, 0] \<and> qualifies [1, 0, 1, 0, 1, 0] 2"
  by (simp add: too_weak_iff qualifies_iff correlation_at_def upt_rec)

text \<open>
  C1 as stated fails. A constant frame of 2048 samples of amplitude 0.5 has no qualifying
  lag, the best similarity of its scan is 1 (above 0.01), at lag 0, and the estimator
  returns -1, not the fallback frequency.
\<close>

theorem C1_fallback_counterexample:
  "no_qualifying_peak (replicate 2048 0.5)
   \<and> spec_best_similarity (replicate 2048 0.5) > 0.01
   \<and> autoCorrelate (replicate 2048 0.5) 44100 = Num (- 1)
   \<and> autoCorrelate (replicate 2048 0.5) 44100
       \<noteq> js_div 44100 (of_int (spec_best_lag (replicate 2048 0.5)))"
proof -
  have np: "no_qualifying_peak (replicate 2048 0.5)"
    by (rule constant_no_peak)
  have best: "spec_best (replicate 2048 (0.5 :: real)) = (0, 1)"
    by (rule constant_spec_best) simp
  have res: "autoCorrelate (replicate 2048 0.5) 44100 = Num (- 1)"
    using np by (rule autoCorrelate_no_peak)
  show ?thesis
    using np res best by (simp add: spec_best_similarity_def spec_best_lag_def js_div_def)
qed

text \<open>
  C1, amended. For every frame in which no lag qualifies the estimator returns the
  sentinel -1, whatever the similarities of the scan are. The fallback R / best_lag is
  what the estimator returns when a qualifying ascent begins at some lag and every lag
  after it up to the last qualifies as well, so that the scan ends without a drop; the
  best lag then is the last lag N/2 - 1.
\<close>

theorem C1_fallback_amended:
  "(no_qualifying_peak buf \<longrightarrow> autoCorrelate buf R = Num (- 1))
   \<and> (\<not> too_weak buf \<and> first < length buf div 2
        \<and> (\<forall>lag < first. \<not> qualifies buf lag)
        \<and> (\<forall>lag. first \<le> lag \<and> lag < length buf div 2 \<longrightarrow> qualifies buf lag)
       \<longrightarrow> autoCorrelate buf R = Num (R / real (length buf div 2 - 1)))"
  using autoCorrelate_no_peak autoCorrelate_ascent by blast

theorem C1_fallback_amended_witness:
  "no_qualifying_peak (replicate 2048 0.5)
   \<and> autoCorrelate (replicate 2048 0.5) 44100 = Num (- 1)
   \<and> \<not> too_weak [1, 0, 1, 0, 1, 0] \<and> (2::nat) < length [1, 0, 1, 0, 1, 0 :: real] div 2
   \<and> \<not> qualifies [1, 0, 1, 0, 1, 0] 0 \<and> \<not> qualifies [1, 0, 1, 0, 1, 0] 1
   \<and> qualifies [1, 0, 1, 0, 1, 0] 2
   \<and> autoCorrelate [1, 0, 1, 0, 1, 0] 44100 = Num 22050"
proof -
  have np: "no_qualifying_peak (replicate 2048 0.5)"
    by (rule constant_no_peak)
  have loud: "\<not> too_weak [1, 0, 1, 0, 1, 0]"
    using alternating_frame by simp
  have first: "(2::nat) < length [1, 0, 1, 0, 1, 0 :: real] div 2" by simp
  have before: "\<forall>lag < 2. \<not> qualifies [1, 0, 1, 0, 1, 0] lag"
    using not_qualifies_first_two by blast
  have after: "\<forall>lag. 2 \<le> lag \<and> lag < length [1, 0, 1, 0, 1, 0 :: real] div 2
          \<longrightarrow> qualifies [1, 0, 1, 0, 1, 0] lag"
  proof (intro allI impI)
    fix lag :: nat assume "2 \<le> lag \<and> lag < length [1, 0, 1, 0, 1, 0 :: real] div 2"
    then have "lag = 2" by simp
    then show "qualifies [1, 0, 1, 0, 1, 0] lag" using alternating_frame by simp
  qed
  from C1_fallback_amended [of "replicate 2048 0.5" 44100] np
  have a: "autoCorrelate (replicate 2048 0.5) 44100 = Num (- 1)" by blast
  from C1_fallback_amended [of "[1, 0, 1, 0, 1, 0]" 44100 2] loud first before after
  have "autoCorrelate [1, 0, 1, 0, 1, 0] 44100
          = Num (44100 / real (length [1, 0, 1, 0, 1, 0 :: real] div 2 - 1))" by blast
  then have b: "autoCorrelate [1, 0, 1, 0, 1, 0] 44100 = Num 22050" by simp
  from before have "\<not> qualifies [1, 0, 1, 0, 1, 0] 0 \<and> \<not> qualifies [1, 0, 1, 0, 1, 0] 1"
    by simp
  with np a loud first alternating_frame b show ?thesis by blast
qed

lemma interpolate_undefined_iff:
  "interpolate R st = UndefinedRead \<longleftrightarrow>
     bestOffset st - 1 < 0 \<or> int (length (correlations st)) \<le> bestOffset st + 1"
  by (auto simp: interpolate_def read_at_def js_div_defined split: option.splits)

lemma alternating_frame_8:
  "autoCorrelate [1, 0, 1, 0, 1, 0, 1, 0] 44100 = Num 22050"
  by (simp add: autoCorrelate_def too_weak_iff scan.simps scan_init_def correlation_at_def
      interpolate_def read_at_def js_div_def upt_rec Let_def)

lemma alternating_frame_6:
  "autoCorrelate [1, 0, 1, 0, 1, 0] 44100 = Num 22050"
  by (simp add: autoCorrelate_def too_weak_iff scan.simps scan_init_def correlation_at_def
      interpolate_def read_at_def js_div_def upt_rec Let_def)

lemma alternating_frame_8_exit:
  "scan [1, 0, 1, 0, 1, 0, 1, 0] 44100 4 0 (scan_init 4) =
     interpolate 44100
       \<lparr>bestOffset = 2, bestCorrelation = 1, foundGoodCorrelation = True,
        lastCorrelation = 1, correlations = [1, 0, 1, 0]\<rparr>"
  by (simp add: scan.simps scan_init_def correlation_at_def upt_rec Let_def eval_nat_numeral)

text \<open>
  C3 as stated fails. The estimator has no test of the length of the frame. A frame of 6
  samples, far too short for the 2048 samples the analyser delivers, is estimated like
  any other: for the frame 1, 0, 1, 0, 1, 0 at 44100 Hz the result is 22050, not -1.
\<close>

theorem C3_short_frame_counterexample:
  "length [1, 0, 1, 0, 1, 0 :: real] < 2048
   \<and> autoCorrelate [1, 0, 1, 0, 1, 0] 44100 = Num 22050
   \<and> autoCorrelate [1, 0, 1, 0, 1, 0] 44100 \<noteq> Num (- 1)"
  by (simp add: alternating_frame_6)

text \<open>
  C3, amended. A frame whose root mean square is below 0.01, and a frame of fewer than 6
  samples (the empty frame among them), give the sentinel -1, from \<^verbatim>\<open>autoCorrelate\<close> and
  from \<^verbatim>\<open>getPitch\<close>. An interpolation reads the array of similarities outside its bounds
  exactly when the best lag is below 1 or the lag after it is beyond the array; on no
  frame at all does the estimator make such a read, so that a lag of 0 is never chosen at
  the interpolation step. The estimator has no raise.
\<close>

theorem C3_degenerate_frames_amended:
  "(rms_of buf = Some rms \<and> rms < 0.01 \<longrightarrow>
      autoCorrelate buf R = Num (- 1) \<and> fst (getPitch a buf) = Num (- 1))
   \<and> (length buf < 6 \<longrightarrow>
      autoCorrelate buf R = Num (- 1) \<and> fst (getPitch a buf) = Num (- 1))
   \<and> (interpolate R st = UndefinedRead \<longleftrightarrow>
        bestOffset st - 1 < 0 \<or> int (length (correlations st)) \<le> bestOffset st + 1)
   \<and> autoCorrelate buf R \<noteq> UndefinedRead
   \<and> fst (getPitch a buf) \<noteq> UndefinedRead"
proof -
  have weak: "autoCorrelate buf R = Num (- 1) \<and> fst (getPitch a buf) = Num (- 1)"
    if "rms_of buf = Some rms \<and> rms < 0.01"
  proof -
    from that have "too_weak buf" by (simp add: too_weak_def)
    then show ?thesis
      using too_weak_silent getPitch_cases [of a buf] by auto
  qed
  have short: "autoCorrelate buf R = Num (- 1) \<and> fst (getPitch a buf) = Num (- 1)"
    if "length buf < 6"
  proof -
    from that have "no_qualifying_peak buf" by (rule short_frame_no_peak)
    then show ?thesis
      using autoCorrelate_no_peak getPitch_cases [of a buf] by auto
  qed
  have "fst (getPitch a buf) \<noteq> UndefinedRead"
    using getPitch_cases [of a buf] autoCorrelate_defined by auto
  with weak short interpolate_undefined_iff [of R st] autoCorrelate_defined
  show ?thesis by blast
qed

theorem C3_degenerate_frames_amended_witness:
  "rms_of (replicate 2048 0) = Some 0 \<and> (0::real) < 0.01
   \<and> autoCorrelate (replicate 2048 0) 44100 = Num (- 1)
   \<and> length ([] :: real list) < 6 \<and> autoCorrelate [] 44100 = Num (- 1)
   \<and> length [1, 1 :: real] < 6 \<and> autoCorrelate [1, 1] 44100 = Num (- 1)
   \<and> fst (getPitch \<lparr>audioContext = Some 44100, analyser = Some 2048,
                    mediaStreamSource = Some True, buffer = replicate 2048 0\<rparr> [1, 1])
        = Num (- 1)
   \<and> autoCorrelate [1, 0, 1, 0, 1, 0, 1, 0] 44100 = Num 22050
   \<and> autoCorrelate [1, 0, 1, 0, 1, 0, 1, 0] 44100 \<noteq> UndefinedRead
   \<and> scan [1, 0, 1, 0, 1, 0, 1, 0] 44100 4 0 (scan_init 4) =
       interpolate 44100
         \<lparr>bestOffset = 2, bestCorrelation = 1, foundGoodCorrelation = True,
          lastCorrelation = 1, correlations = [1, 0, 1, 0]\<rparr>
   \<and> interpolate 44100
         \<lparr>bestOffset = 2, bestCorrelation = 1, foundGoodCorrelation = True,
          lastCorrelation = 1, correlations = [1, 0, 1, 0]\<rparr> \<noteq> UndefinedRead"
proof -
  have r: "rms_of (replicate 2048 0) = Some 0"
    by (simp add: rms_of_def sum_list_replicate)
  from C3_degenerate_frames_amended [of "replicate 2048 0" 0 44100] r
  have a: "autoCorrelate (replicate 2048 0) 44100 = Num (- 1)" by simp
  from C3_degenerate_frames_amended [of "[]" _ 44100]
  have b: "autoCorrelate [] 44100 = Num (- 1)" by simp
  from C3_degenerate_frames_amended [of "[1, 1]" _ 44100]
  have c: "autoCorrelate [1, 1] 44100 = Num (- 1)
           \<and> fst (getPitch \<lparr>audioContext = Some 44100, analyser = Some 2048,
                    mediaStreamSource = Some True, buffer = replicate 2048 0\<rparr> [1, 1])
               = Num (- 1)" by simp
  from C3_degenerate_frames_amended [of "[1, 0, 1, 0, 1, 0, 1, 0]" _ 44100]
  have d: "autoCorrelate [1, 0, 1, 0, 1, 0, 1, 0] 44100 \<noteq> UndefinedRead" by blast
  from C3_degenerate_frames_amended [of _ _ 44100 _
      "\<lparr>bestOffset = 2, bestCorrelation = 1, foundGoodCorrelation = True,
        lastCorrelation = 1, correlations = [1, 0, 1, 0]\<rparr>"]
  have e: "interpolate 44100
         \<lparr>bestOffset = 2, bestCorrelation = 1, foundGoodCorrelation = True,
          lastCorrelation = 1, correlations = [1, 0, 1, 0]\<rparr> \<noteq> UndefinedRead" by simp
  from r a b c d e alternating_frame_8 alternating_frame_8_exit show ?thesis by simp
qed

subsection \<open>The session\<close>

text \<open>The session after a start that was granted, and the pitches a tick can leave.\<close>

lemma session_started:
  "startListening True 44100 app_init =
     app_init\<lparr>analyzerRef := Some \<lparr>audioContext = Some 44100, analyser = Some 2048,
                                    mediaStreamSource = Some True, buffer = replicate 2048 0\<rparr>,
              isListening := True\<rparr>"
  by (simp add: startListening_def start_def app_init_def new_AudioAnalyzer_def)

lemma checkPitch_pitch:
  "pitch (checkPitch samples s) = pitch s \<or> pitch (checkPitch samples s) = - 1
   \<or> (70 < pitch (checkPitch samples s) \<and> pitch (checkPitch samples s) < 1000)"
  by (simp add: checkPitch_def Let_def split: option.splits prod.splits js_number.splits)

lemma key_C: "BASE_C3_MIDI + (case KEY_OFFSETS ''C'' of None \<Rightarrow> 0 | Some v \<Rightarrow> v) = 48"
  by (simp add: BASE_C3_MIDI_def KEY_OFFSETS_def)

lemma getFrequency_60_bound: "getFrequency 60 < 352"
proof -
  define x :: real where "x = 2 powr (- 1 / 2)"
  have xpos: "0 < x" by (simp add: x_def)
  have "x * x = 2 powr (- 1 / 2 + - 1 / 2)"
    unfolding x_def by (rule powr_add [symmetric])
  also have "\<dots> = 1 / 2"
    by (simp add: powr_minus)
  finally have sq: "x * x = 1 / 2" .
  have xs: "x < 4 / 5"
  proof (rule ccontr)
    assume "\<not> x < 4 / 5"
    then have "4 / 5 \<le> x" by simp
    then have "(4 / 5) * (4 / 5) \<le> x * x"
      by (intro mult_mono) simp_all
    with sq show False by simp
  qed
  have le: "(2::real) powr (- (3 / 4)) \<le> 2 powr (- (1 / 2))" by simp
  have xs': "(2::real) powr (- (1 / 2)) < 4 / 5" using xs by (simp add: x_def)
  from le xs' have "(2::real) powr (- (3 / 4)) < 4 / 5" by linarith
  then show ?thesis
    by (simp add: getFrequency_def)
qed

lemma position_C440_low:
  "calculateScalePosition 440 (scaleLow (generateScaleData ''C'')) = Inr None"
  using getFrequency_60_bound
  by (simp add: generated_low key_C calculateScalePosition_def)

lemma position_C440_high:
  "calculateScalePosition 440 (scaleHigh (generateScaleData ''C'')) = Inr (Some 5)"
proof -
  have "freq (scaleHigh (generateScaleData ''C'') ! 5) = 440"
    by (simp add: generated_high key_C getFrequency_69)
  then show ?thesis
    using exact_tone_position [of "scaleHigh (generateScaleData ''C'')" 5] generated_well_formed
    by simp
qed

lemma render_C440:
  "render 440 (generateScaleData ''C'') True 5000 tower_init =
     Inr (\<lparr>position = Some 5, renderPosition = Some 5, bottomPercent = Some 68.75\<rparr>,
          \<lparr>prevPositionRef = Some 5, displayedNote = ''A4'', lastNoteUpdateRef = 5000,
           positionDep = Some (Some 5), frequencyDep = Some 440\<rparr>)"
  by (simp add: render_def getPosition_def position_C440_low position_C440_high tower_init_def
      view_of_def Let_def position_effect_def note_effect_def getNoteName_440)

lemma render_after_stop:
  "render_tower now (stopListening s) =
     Inr ((stopListening s)\<lparr>tower := note_effect (- 1) now (position_effect None (tower s))\<rparr>)"
  by (simp add: render_tower_def render_def getPosition_def stopListening_def)

lemma note_effect_silent:
  "f \<le> 0 \<Longrightarrow> lastNoteUpdateRef (note_effect f now st) = lastNoteUpdateRef st"
  by (simp add: note_effect_def)

lemma position_effect_None_note:
  "lastNoteUpdateRef (position_effect None st) = lastNoteUpdateRef st"
  by (simp add: position_effect_def)

text \<open>
  C2 as stated fails. A session that listens, in the key of C, with a detected pitch of
  440 Hz: the render of the tower puts position 5 into the continuity state and the time
  5000 into the memory of the rate limiter. After \<^verbatim>\<open>stopListening\<close> and the render
  that follows it both are still there; on a fresh start they are absent and 0.
\<close>

theorem C2_stop_counterexample:
  "render 440 (generateScaleData ''C'') True 5000 tower_init =
     Inr (\<lparr>position = Some 5, renderPosition = Some 5, bottomPercent = Some 68.75\<rparr>,
          \<lparr>prevPositionRef = Some 5, displayedNote = ''A4'', lastNoteUpdateRef = 5000,
           positionDep = Some (Some 5), frequencyDep = Some 440\<rparr>)
   \<and> render_tower 5300
        (stopListening
          \<lparr>analyzerRef = Some \<lparr>audioContext = Some 44100, analyser = Some 2048,
                                mediaStreamSource = Some True, buffer = replicate 2048 0\<rparr>,
           intervalRef = Some 1, isListening = True, pitch = 440, error = None,
           currentKey = ''C'',
           tower = \<lparr>prevPositionRef = Some 5, displayedNote = ''A4'',
                    lastNoteUpdateRef = 5000, positionDep = Some (Some 5),
                    frequencyDep = Some 440\<rparr>\<rparr>) =
     Inr \<lparr>analyzerRef = Some \<lparr>audioContext = None, analyser = None,
                              mediaStreamSource = Some False, buffer = replicate 2048 0\<rparr>,
          intervalRef = None, isListening = False, pitch = - 1, error = None,
          currentKey = ''C'',
          tower = \<lparr>prevPositionRef = Some 5, displayedNote = [],
                   lastNoteUpdateRef = 5000, positionDep = Some None,
                   frequencyDep = Some (- 1)\<rparr>\<rparr>
   \<and> Some 5 \<noteq> prevPositionRef tower_init
   \<and> 5000 \<noteq> lastNoteUpdateRef tower_init"
proof -
  let ?s = "\<lparr>analyzerRef = Some \<lparr>audioContext = Some 44100, analyser = Some 2048,
                                mediaStreamSource = Some True, buffer = replicate 2048 0\<rparr>,
           intervalRef = Some 1, isListening = True, pitch = 440, error = None,
           currentKey = ''C'',
           tower = \<lparr>prevPositionRef = Some 5, displayedNote = ''A4'',
                    lastNoteUpdateRef = 5000, positionDep = Some (Some 5),
                    frequencyDep = Some 440\<rparr>\<rparr>"
  have "render_tower 5300 (stopListening ?s) =
          Inr ((stopListening ?s)\<lparr>tower := note_effect (- 1) 5300
                                              (position_effect None (tower ?s))\<rparr>)"
    by (rule render_after_stop)
  then have a: "render_tower 5300 (stopListening ?s) =
     Inr \<lparr>analyzerRef = Some \<lparr>audioContext = None, analyser = None,
                              mediaStreamSource = Some False, buffer = replicate 2048 0\<rparr>,
          intervalRef = None, isListening = False, pitch = - 1, error = None,
          currentKey = ''C'',
          tower = \<lparr>prevPositionRef = Some 5, displayedNote = [],
                   lastNoteUpdateRef = 5000, positionDep = Some None,
                   frequencyDep = Some (- 1)\<rparr>\<rparr>"
    by (simp add: stopListening_def stop_def note_effect_def position_effect_def)
  have b: "Some 5 \<noteq> prevPositionRef tower_init \<and> 5000 \<noteq> lastNoteUpdateRef tower_init"
    by (simp add: tower_init_def)
  from render_C440 a b show ?thesis by blast
qed


lemma stop_idem: "stop (stop a) = stop a"
  by (simp add: stop_def split: option.splits)

lemma stopListening_idem: "stopListening (stopListening s) = stopListening s"
  by (cases "analyzerRef s"; cases "intervalRef s") (simp_all add: stopListening_def stop_idem)

text \<open>
  C2, amended. After \<^verbatim>\<open>stopListening\<close>, whatever the session was doing, listening is off,
  the pitch is the sentinel -1, the reference to the timer is cleared (an id of 0 apart),
  and the analyzer has released its audio: no context, no analyser, the source not
  connected. The state of the tower is not touched: the continuity state and the time
  kept by the rate limiter are after the stop, and after the render that follows it, what
  they were before. Stopping twice is stopping once.
\<close>

theorem C2_stop_amended:
  "isListening (stopListening s) = False \<and> pitch (stopListening s) = - 1
   \<and> (intervalRef s \<noteq> Some 0 \<longrightarrow> intervalRef (stopListening s) = None)
   \<and> (\<forall>a. analyzerRef s = Some a \<longrightarrow>
         analyzerRef (stopListening s) = Some (stop a)
         \<and> audioContext (stop a) = None \<and> analyser (stop a) = None
         \<and> mediaStreamSource (stop a) \<noteq> Some True)
   \<and> tower (stopListening s) = tower s
   \<and> (\<exists>s'. render_tower now (stopListening s) = Inr s'
         \<and> prevPositionRef (tower s') = prevPositionRef (tower s)
         \<and> lastNoteUpdateRef (tower s') = lastNoteUpdateRef (tower s))
   \<and> stopListening (stopListening s) = stopListening s"
proof -
  have a: "isListening (stopListening s) = False \<and> pitch (stopListening s) = - 1
           \<and> tower (stopListening s) = tower s"
    by (simp add: stopListening_def)
  have b: "intervalRef s \<noteq> Some 0 \<longrightarrow> intervalRef (stopListening s) = None"
    by (simp add: stopListening_def split: option.splits)
  have c: "\<forall>a. analyzerRef s = Some a \<longrightarrow>
         analyzerRef (stopListening s) = Some (stop a)
         \<and> audioContext (stop a) = None \<and> analyser (stop a) = None
         \<and> mediaStreamSource (stop a) \<noteq> Some True"
    by (simp add: stopListening_def stop_def split: option.splits)
  have d: "\<exists>s'. render_tower now (stopListening s) = Inr s'
         \<and> prevPositionRef (tower s') = prevPositionRef (tower s)
         \<and> lastNoteUpdateRef (tower s') = lastNoteUpdateRef (tower s)"
    by (simp add: render_after_stop note_effect_silent position_effect_None
        position_effect_None_note)
  from a b c d stopListening_idem show ?thesis by blast
qed

theorem C2_stop_amended_witness:
  "intervalRef
     \<lparr>analyzerRef = Some \<lparr>audioContext = Some 44100, analyser = Some 2048,
                           mediaStreamSource = Some True, buffer = replicate 2048 0\<rparr>,
      intervalRef = Some 1, isListening = True, pitch = 440, error = None,
      currentKey = ''C'',
      tower = \<lparr>prevPositionRef = Some 5, displayedNote = ''A4'', lastNoteUpdateRef = 5000,
               positionDep = Some (Some 5), frequencyDep = Some 440\<rparr>\<rparr> \<noteq> Some 0
   \<and> intervalRef (stopListening
     \<lparr>analyzerRef = Some \<lparr>audioContext = Some 44100, analyser = Some 2048,
                           mediaStreamSource = Some True, buffer = replicate 2048 0\<rparr>,
      intervalRef = Some 1, isListening = True, pitch = 440, error = None,
      currentKey = ''C'',
      tower = \<lparr>prevPositionRef = Some 5, displayedNote = ''A4'', lastNoteUpdateRef = 5000,
               positionDep = Some (Some 5), frequencyDep = Some 440\<rparr>\<rparr>) = None
   \<and> analyzerRef (stopListening
     \<lparr>analyzerRef = Some \<lparr>audioContext = Some 44100, analyser = Some 2048,
                           mediaStreamSource = Some True, buffer = replicate 2048 0\<rparr>,
      intervalRef = Some 1, isListening = True, pitch = 440, error = None,
      currentKey = ''C'',
      tower = \<lparr>prevPositionRef = Some 5, displayedNote = ''A4'', lastNoteUpdateRef = 5000,
               positionDep = Some (Some 5), frequencyDep = Some 440\<rparr>\<rparr>)
       = Some \<lparr>audioContext = None, analyser = None,
                mediaStreamSource = Some False, buffer = replicate 2048 0\<rparr>
   \<and> prevPositionRef (tower (stopListening
     \<lparr>analyzerRef = Some \<lparr>audioContext = Some 44100, analyser = Some 2048,
                           mediaStreamSource = Some True, buffer = replicate 2048 0\<rparr>,
      intervalRef = Some 1, isListening = True, pitch = 440, error = None,
      currentKey = ''C'',
      tower = \<lparr>prevPositionRef = Some 5, displayedNote = ''A4'', lastNoteUpdateRef = 5000,
               positionDep = Some (Some 5), frequencyDep = Some 440\<rparr>\<rparr>)) = Some 5"
proof -
  let ?a = "\<lparr>audioContext = Some 44100, analyser = Some 2048,
              mediaStreamSource = Some True, buffer = replicate 2048 (0::real)\<rparr>"
  let ?s = "\<lparr>analyzerRef = Some ?a,
      intervalRef = Some 1, isListening = True, pitch = 440, error = None,
      currentKey = ''C'',
      tower = \<lparr>prevPositionRef = Some 5, displayedNote = ''A4'', lastNoteUpdateRef = 5000,
               positionDep = Some (Some 5), frequencyDep = Some 440\<rparr>\<rparr>"
  have h1: "intervalRef ?s \<noteq> Some 0" by simp
  have h2: "analyzerRef ?s = Some ?a" by simp
  from C2_stop_amended [of ?s] h1 have i: "intervalRef (stopListening ?s) = None"
    by blast
  from C2_stop_amended [of ?s] h2 have "analyzerRef (stopListening ?s) = Some (stop ?a)"
    by blast
  then have an: "analyzerRef (stopListening ?s)
       = Some \<lparr>audioContext = None, analyser = None,
                mediaStreamSource = Some False, buffer = replicate 2048 0\<rparr>"
    by (simp add: stop_def)
  from C2_stop_amended [of ?s] have "tower (stopListening ?s) = tower ?s"
    by blast
  then have t: "prevPositionRef (tower (stopListening ?s)) = Some 5" by simp
  from h1 i an t show ?thesis by blast
qed

end
